theory Spec2Isabelle
  imports Main "HOL-Library.Sublist"
begin

section \<open>Python values used by the entrypoint\<close>

text \<open>
  \<open>str(n)\<close> for a non-negative integer: the decimal digits, most significant first.
\<close>

definition digit :: "nat \<Rightarrow> char" where
  "digit d = ''0123456789'' ! d"

function str :: "nat \<Rightarrow> string" where
  "str n = (if n < 10 then [digit n] else str (n div 10) @ [digit (n mod 10)])"
  by pat_completeness auto
termination
  by (relation "measure id") auto

declare str.simps [simp del]

text \<open>\<open>sep.join(xs)\<close>.\<close>

fun join :: "string \<Rightarrow> string list \<Rightarrow> string" where
  "join sep [] = []"
| "join sep [x] = x"
| "join sep (x # y # ys) = x @ sep @ join sep (y # ys)"

text \<open>\<open>any(bs)\<close>.\<close>

definition any :: "bool list \<Rightarrow> bool" where
  "any bs = (True \<in> set bs)"

section \<open>The parsed arguments\<close>

text \<open>
  The namespace returned by \<open>_parse_args\<close>: one field per \<open>dest\<close>, and
  \<open>builtin_worker\<close>, which only \<open>set_defaults\<close> names.
\<close>

record args =
  builtin_worker :: bool
  composer_api :: bool
  composer_api_port :: int
  local_worker_api :: bool
  remote_worker_api :: bool
  weldr_api :: bool
  dnf_json :: bool
  dnf_json_port :: int

section \<open>The operating system as seen by the supervisor\<close>

datatype exc = OSError | OverflowError | AssertionError | KeyboardInterrupt

text \<open>The three programs the entrypoint starts, named after the variables of \<open>run\<close>.\<close>

datatype proc_name = Composer | Worker | DnfJson

text \<open>
  What the supervisor does to the outside, in order: a socket is created with a
  descriptor, a socket is closed, a child is started, a \<open>wait()\<close> on a child returned,
  a child was sent SIGTERM (\<open>terminate()\<close>), a child was sent SIGKILL (\<open>kill()\<close>).
\<close>

datatype event =
    EvSocket nat
  | EvClose nat
  | EvSpawn proc_name
  | EvWait proc_name
  | EvTerminate proc_name
  | EvKill proc_name

type_synonym environment = "string \<rightharpoonup> string"

text \<open>A started child (\<open>subprocess.Popen\<close> object) and what it was started with.\<close>

record child =
  ch_name :: proc_name
  ch_pid :: nat
  ch_cmd :: "string list"
  ch_cwd :: string
  ch_env :: environment
  ch_pass_fds :: "nat list"

text \<open>
  The state of the supervisor process: its open descriptors, \<open>os.environ\<close>, the
  sockets registered in \<open>self._exitstack\<close> (latest first), the events so far, and the
  local variables of \<open>run\<close>, which keep their values when an exception leaves the
  \<open>try\<close> block.
\<close>

record state =
  open_fds :: "nat list"
  environ :: environment
  exitstack :: "nat list"
  trace :: "event list"
  proc_composer :: "child option"
  proc_worker :: "child option"
  proc_dnf_json :: "child option"
  res :: int

text \<open>
  What the outside decides. A call that can fail is identified by its line in
  \<open>entrypoint.py\<close>: \<open>fault w l\<close> says that the system call made at line \<open>l\<close> raises
  \<open>OSError\<close>, \<open>interrupt w l\<close> that the blocking call made at line \<open>l\<close>, a \<open>wait()\<close>
  or a \<open>Popen\<close>, is left by \<open>KeyboardInterrupt\<close>. \<open>exit_code\<close> is what \<open>wait()\<close>
  returns for a child and \<open>fork_pid\<close> the process identifier it gets. The calls that
  can fail are those on sockets and \<open>Popen\<close>; an interrupt is observed while blocked
  in a \<open>wait()\<close> or in a \<open>Popen\<close>, which waits for its child to execute;
  \<open>terminate()\<close>, \<open>kill()\<close> and a \<open>wait()\<close> that is not interrupted do not raise.
\<close>

record world =
  fault :: "nat \<Rightarrow> bool"
  interrupt :: "nat \<Rightarrow> bool"
  exit_code :: "proc_name \<Rightarrow> int"
  fork_pid :: "proc_name \<Rightarrow> nat"

text \<open>
  A statement either returns a value or raises; the state it leaves is kept in both
  cases.
\<close>

type_synonym 'a prog = "state \<Rightarrow> (exc + 'a) \<times> state"

definition returnE :: "'a \<Rightarrow> 'a prog" where
  "returnE x s = (Inr x, s)"

definition raiseE :: "exc \<Rightarrow> 'a prog" where
  "raiseE e s = (Inl e, s)"

definition bindE :: "'a prog \<Rightarrow> ('a \<Rightarrow> 'b prog) \<Rightarrow> 'b prog" where
  "bindE m f s = (case m s of (Inl e, s') \<Rightarrow> (Inl e, s') | (Inr x, s') \<Rightarrow> f x s')"

definition thenE :: "unit prog \<Rightarrow> 'b prog \<Rightarrow> 'b prog" where
  "thenE m n = bindE m (\<lambda>_. n)"

definition whenE :: "(state \<Rightarrow> bool) \<Rightarrow> unit prog \<Rightarrow> unit prog" where
  "whenE c m s = (if c s then m s else (Inr (), s))"

definition try_except :: "'a prog \<Rightarrow> (exc \<Rightarrow> 'a prog) \<Rightarrow> 'a prog" where
  "try_except body handler s =
     (case body s of (Inl e, s') \<Rightarrow> handler e s' | (Inr x, s') \<Rightarrow> (Inr x, s'))"

definition modify :: "(state \<Rightarrow> state) \<Rightarrow> unit prog" where
  "modify f s = (Inr (), f s)"

definition log :: "event \<Rightarrow> state \<Rightarrow> state" where
  "log e s = s\<lparr>trace := trace s @ [e]\<rparr>"

subsection \<open>Sockets\<close>

text \<open>
  The kernel gives a new descriptor the lowest number that is not open.
\<close>

definition lowest_free :: "nat list \<Rightarrow> nat" where
  "lowest_free fds = length (takeWhile (\<lambda>n. n \<in> set fds) [0 ..< Suc (length fds)])"

datatype family = AF_UNIX | AF_INET6

datatype address = UnixPath string | Inet6 string int

datatype sockopt = SO_REUSEADDR | IPV6_V6ONLY

text \<open>A socket object is known by its descriptor; \<open>fileno\<close> reads it.\<close>

type_synonym sock = nat

definition fileno :: "sock \<Rightarrow> nat" where
  "fileno sock = sock"

text \<open>\<open>socket.socket(family, SOCK_STREAM)\<close> at line \<open>l\<close>.\<close>

definition socket_socket :: "world \<Rightarrow> nat \<Rightarrow> family \<Rightarrow> sock prog" where
  "socket_socket w l fam s =
     (if fault w l then (Inl OSError, s)
      else (let fd = lowest_free (open_fds s)
            in (Inr fd, log (EvSocket fd) (s\<lparr>open_fds := fd # open_fds s\<rparr>))))"

text \<open>\<open>self._exitstack.enter_context(contextlib.closing(sock))\<close>.\<close>

definition enter_context_closing :: "sock \<Rightarrow> unit prog" where
  "enter_context_closing sock s = (Inr (), s\<lparr>exitstack := sock # exitstack s\<rparr>)"

text \<open>
  \<open>sock.setsockopt\<close>, \<open>sock.bind\<close> and \<open>sock.listen\<close> at line \<open>l\<close>. Binding to a port
  outside 0..65535 raises \<open>OverflowError\<close> before the system call is made.
\<close>

definition setsockopt :: "world \<Rightarrow> nat \<Rightarrow> sock \<Rightarrow> sockopt \<Rightarrow> nat \<Rightarrow> unit prog" where
  "setsockopt w l sock opt v s = (if fault w l then (Inl OSError, s) else (Inr (), s))"

definition port_ok :: "address \<Rightarrow> bool" where
  "port_ok addr = (case addr of UnixPath p \<Rightarrow> True | Inet6 h p \<Rightarrow> 0 \<le> p \<and> p \<le> 65535)"

definition sock_bind :: "world \<Rightarrow> nat \<Rightarrow> sock \<Rightarrow> address \<Rightarrow> unit prog" where
  "sock_bind w l sock addr s =
     (if \<not> port_ok addr then (Inl OverflowError, s)
      else if fault w l then (Inl OSError, s)
      else (Inr (), s))"

definition sock_listen :: "world \<Rightarrow> nat \<Rightarrow> sock \<Rightarrow> nat option \<Rightarrow> unit prog" where
  "sock_listen w l sock backlog s = (if fault w l then (Inl OSError, s) else (Inr (), s))"

text \<open>\<open>sock.close()\<close>, as \<open>contextlib.closing\<close> calls it.\<close>

definition sock_close :: "sock \<Rightarrow> state \<Rightarrow> state" where
  "sock_close sock s = log (EvClose sock) (s\<lparr>open_fds := removeAll sock (open_fds s)\<rparr>)"

text \<open>\<open>assert(b)\<close>.\<close>

definition py_assert :: "bool \<Rightarrow> unit prog" where
  "py_assert b s = (if b then (Inr (), s) else (Inl AssertionError, s))"

text \<open>\<open>os.environ[k] = v\<close>.\<close>

definition environ_set :: "string \<Rightarrow> string \<Rightarrow> unit prog" where
  "environ_set k v s = (Inr (), s\<lparr>environ := (environ s)(k \<mapsto> v)\<rparr>)"

section \<open>\<open>Cli._prepare_sockets\<close>\<close>

text \<open>The local variables \<open>index\<close>, \<open>sockets\<close> and \<open>names\<close>.\<close>

record locals =
  index :: nat
  sockets :: "sock list"
  names :: "string list"

text \<open>Lines 153 to 163: \<open>osbuild-composer.socket\<close>.\<close>

definition prepare_weldr :: "world \<Rightarrow> args \<Rightarrow> locals \<Rightarrow> locals prog" where
  "prepare_weldr w a l =
     (if weldr_api a then
        bindE (socket_socket w 155 AF_UNIX) (\<lambda>sock.
        thenE (enter_context_closing sock)
       (thenE (sock_bind w 157 sock (UnixPath ''/run/weldr/api.socket''))
       (thenE (sock_listen w 158 sock None)
       (thenE (py_assert (fileno sock = index l))
       (returnE (l\<lparr>sockets := sockets l @ [sock],
                    names := names l @ [''osbuild-composer.socket''],
                    index := index l + 1\<rparr>))))))
      else returnE l)"

text \<open>Lines 166 to 178: \<open>osbuild-composer-api.socket\<close>.\<close>

definition prepare_composer_api :: "world \<Rightarrow> args \<Rightarrow> locals \<Rightarrow> locals prog" where
  "prepare_composer_api w a l =
     (if composer_api a then
        bindE (socket_socket w 168 AF_INET6) (\<lambda>sock.
        thenE (enter_context_closing sock)
       (thenE (setsockopt w 170 sock SO_REUSEADDR 1)
       (thenE (setsockopt w 171 sock IPV6_V6ONLY 0)
       (thenE (sock_bind w 172 sock (Inet6 ''::'' (composer_api_port a)))
       (thenE (sock_listen w 173 sock None)
       (thenE (py_assert (fileno sock = index l))
       (returnE (l\<lparr>sockets := sockets l @ [sock],
                    names := names l @ [''osbuild-composer-api.socket''],
                    index := index l + 1\<rparr>))))))))
      else returnE l)"

text \<open>Lines 181 to 191: \<open>osbuild-local-worker.socket\<close>.\<close>

definition prepare_local_worker :: "world \<Rightarrow> args \<Rightarrow> locals \<Rightarrow> locals prog" where
  "prepare_local_worker w a l =
     (if local_worker_api a then
        bindE (socket_socket w 183 AF_UNIX) (\<lambda>sock.
        thenE (enter_context_closing sock)
       (thenE (sock_bind w 185 sock (UnixPath ''/run/osbuild-composer/job.socket''))
       (thenE (sock_listen w 186 sock None)
       (thenE (py_assert (fileno sock = index l))
       (returnE (l\<lparr>sockets := sockets l @ [sock],
                    names := names l @ [''osbuild-local-worker.socket''],
                    index := index l + 1\<rparr>))))))
      else returnE l)"

text \<open>Lines 194 to 206: \<open>osbuild-remote-worker.socket\<close>.\<close>

definition prepare_remote_worker :: "world \<Rightarrow> args \<Rightarrow> locals \<Rightarrow> locals prog" where
  "prepare_remote_worker w a l =
     (if remote_worker_api a then
        bindE (socket_socket w 196 AF_INET6) (\<lambda>sock.
        thenE (enter_context_closing sock)
       (thenE (setsockopt w 198 sock SO_REUSEADDR 1)
       (thenE (setsockopt w 199 sock IPV6_V6ONLY 0)
       (thenE (sock_bind w 200 sock (Inet6 ''::'' 8700))
       (thenE (sock_listen w 201 sock (Some 256))
       (thenE (py_assert (fileno sock = index l))
       (returnE (l\<lparr>sockets := sockets l @ [sock],
                    names := names l @ [''osbuild-remote-worker.socket''],
                    index := index l + 1\<rparr>))))))))
      else returnE l)"

definition prepare_sockets :: "world \<Rightarrow> args \<Rightarrow> sock list prog" where
  "prepare_sockets w a =
     bindE (prepare_weldr w a \<lparr>index = 3, sockets = [], names = []\<rparr>) (\<lambda>l1.
     bindE (prepare_composer_api w a l1) (\<lambda>l2.
     bindE (prepare_local_worker w a l2) (\<lambda>l3.
     bindE (prepare_remote_worker w a l3) (\<lambda>l4.
     thenE (environ_set ''LISTEN_FDS'' (str (length (sockets l4))))
    (thenE (environ_set ''LISTEN_FDNAMES'' (join '':'' (names l4)))
    (returnE (sockets l4)))))))"

section \<open>Child processes\<close>

text \<open>
  \<open>subprocess.Popen(cmd, cwd=, env=, pass_fds=, preexec_fn=)\<close> at line \<open>l\<close>. The child is
  forked with the process identifier the world gives it; its environment is \<open>env\<close>, or the
  supervisor's own when \<open>env\<close> is not given; \<open>preexec_fn\<close> then runs in the child, where
  \<open>os.getpid()\<close> is the child's identifier and \<open>os.putenv\<close> changes the child's
  environment only; last the child executes \<open>cmd\<close>. A child that cannot be started raises
  \<open>OSError\<close> in the supervisor and leaves no process. A \<open>Popen\<close> that is left by
  \<open>KeyboardInterrupt\<close> returns no child object: the variable of \<open>run\<close> it was to be
  assigned to keeps \<open>None\<close>, and \<open>EvSpawn\<close> is recorded only for a \<open>Popen\<close> that
  returned. The \<open>stdin\<close> and \<open>stderr\<close> redirections are left out.
\<close>

definition popen ::
  "world \<Rightarrow> nat \<Rightarrow> proc_name \<Rightarrow> string list \<Rightarrow> string \<Rightarrow> environment option \<Rightarrow> nat list \<Rightarrow>
   (nat \<Rightarrow> environment \<Rightarrow> environment) option \<Rightarrow> child prog" where
  "popen w l nm cmd cwd env fds preexec_fn s =
     (if fault w l then (Inl OSError, s)
      else if interrupt w l then (Inl KeyboardInterrupt, s)
      else (let pid = fork_pid w nm;
                forked = (case env of None \<Rightarrow> environ s | Some e \<Rightarrow> e);
                execed = (case preexec_fn of None \<Rightarrow> forked | Some f \<Rightarrow> f pid forked)
            in (Inr \<lparr>ch_name = nm, ch_pid = pid, ch_cmd = cmd, ch_cwd = cwd,
                     ch_env = execed, ch_pass_fds = fds\<rparr>,
                log (EvSpawn nm) s)))"

text \<open>\<open>p.terminate()\<close>, \<open>p.kill()\<close>, and \<open>p.wait()\<close> at line \<open>l\<close>.\<close>

definition proc_terminate :: "child \<Rightarrow> unit prog" where
  "proc_terminate p s = (Inr (), log (EvTerminate (ch_name p)) s)"

definition proc_kill :: "child \<Rightarrow> unit prog" where
  "proc_kill p s = (Inr (), log (EvKill (ch_name p)) s)"

definition proc_wait :: "world \<Rightarrow> nat \<Rightarrow> child \<Rightarrow> int prog" where
  "proc_wait w l p s =
     (if interrupt w l then (Inl KeyboardInterrupt, s)
      else (Inr (exit_code w (ch_name p)), log (EvWait (ch_name p)) s))"

text \<open>\<open>if v: body\<close> for a variable \<open>v\<close> of \<open>run\<close> that holds \<open>None\<close> or a child.\<close>

definition if_proc :: "(state \<Rightarrow> child option) \<Rightarrow> (child \<Rightarrow> unit prog) \<Rightarrow> unit prog" where
  "if_proc v body s = (case v s of None \<Rightarrow> (Inr (), s) | Some p \<Rightarrow> body p s)"

section \<open>\<open>Cli._spawn_worker\<close>, \<open>Cli._spawn_composer\<close>, \<open>Cli._spawn_dnf_json\<close>\<close>

definition spawn_worker :: "world \<Rightarrow> child prog" where
  "spawn_worker w s =
     (let env = environ s;
          env = env(''CACHE_DIRECTORY'' \<mapsto> ''/var/cache/osbuild-worker'');
          env = env(''STATE_DIRECTORY'' \<mapsto> ''/var/lib/osbuild-worker'')
      in popen w 226 Worker
           [''/usr/libexec/osbuild-composer/osbuild-worker'', ''-unix'',
            ''/run/osbuild-composer/job.socket'']
           ''/'' (Some env) [] None s)"

definition preexec_setenv :: "nat \<Rightarrow> environment \<Rightarrow> environment" where
  "preexec_setenv getpid env = env(''LISTEN_PID'' \<mapsto> str getpid)"

definition spawn_composer :: "world \<Rightarrow> sock list \<Rightarrow> child prog" where
  "spawn_composer w socks =
     thenE (environ_set ''CACHE_DIRECTORY'' ''/var/cache/osbuild-composer'')
    (thenE (environ_set ''STATE_DIRECTORY'' ''/var/lib/osbuild-composer'')
    (popen w 254 Composer
       [''/usr/libexec/osbuild-composer/osbuild-composer'', ''-verbose'']
       ''/usr/libexec/osbuild-composer'' None (map fileno socks) (Some preexec_setenv)))"

definition spawn_dnf_json :: "world \<Rightarrow> args \<Rightarrow> child prog" where
  "spawn_dnf_json w a =
     bindE (if dnf_json_port a \<noteq> 0 then
              bindE (socket_socket w 269 AF_INET6) (\<lambda>sock.
              thenE (enter_context_closing sock)
             (thenE (setsockopt w 271 sock SO_REUSEADDR 1)
             (thenE (setsockopt w 272 sock IPV6_V6ONLY 0)
             (thenE (sock_bind w 273 sock (Inet6 ''::'' (dnf_json_port a)))
             (thenE (sock_listen w 274 sock None)
             (returnE sock))))))
            else
              bindE (socket_socket w 276 AF_UNIX) (\<lambda>sock.
              thenE (enter_context_closing sock)
             (thenE (sock_bind w 278 sock (UnixPath ''/run/osbuild-dnf-json/api.sock''))
             (thenE (sock_listen w 279 sock None)
             (returnE sock))))) (\<lambda>sock s.
       (let dnfenv = environ s;
            dnfenv = dnfenv(''LISTEN_FDS'' \<mapsto> ''1'');
            dnfenv = dnfenv(''LISTEN_FD'' \<mapsto> str (fileno sock))
        in popen w 285 DnfJson [''/usr/libexec/osbuild-composer/dnf-json'']
             ''/usr/libexec/osbuild-composer'' (Some dnfenv) [fileno sock] None s))"

section \<open>\<open>Cli.run\<close>\<close>

text \<open>Lines 297 to 300.\<close>

definition run_init :: "unit prog" where
  "run_init = modify (\<lambda>s. s\<lparr>proc_composer := None, proc_worker := None,
                             proc_dnf_json := None, res := 0\<rparr>)"

text \<open>Lines 304 to 311: the children are started.\<close>

definition run_spawn :: "world \<Rightarrow> args \<Rightarrow> sock list \<Rightarrow> unit prog" where
  "run_spawn w a socks =
     thenE (whenE (\<lambda>_. builtin_worker a)
              (bindE (spawn_worker w) (\<lambda>p. modify (\<lambda>s. s\<lparr>proc_worker := Some p\<rparr>))))
    (thenE (whenE (\<lambda>_. dnf_json a)
              (bindE (spawn_dnf_json w a) (\<lambda>p. modify (\<lambda>s. s\<lparr>proc_dnf_json := Some p\<rparr>))))
           (whenE (\<lambda>_. any [weldr_api a, composer_api a, local_worker_api a, remote_worker_api a])
              (bindE (spawn_composer w socks) (\<lambda>p. modify (\<lambda>s. s\<lparr>proc_composer := Some p\<rparr>)))))"

text \<open>Lines 313 to 326: the primary server is waited for, then the helpers.\<close>

definition run_wait :: "world \<Rightarrow> int prog" where
  "run_wait w =
     thenE (if_proc proc_composer (\<lambda>p.
              bindE (proc_wait w 314 p) (\<lambda>r. modify (\<lambda>s. s\<lparr>res := r\<rparr>))))
    (thenE (if_proc proc_worker (\<lambda>p.
              thenE (if_proc proc_composer (\<lambda>_. proc_terminate p))
                    (bindE (proc_wait w 319 p) (\<lambda>_. returnE ()))))
    (thenE (if_proc proc_dnf_json (\<lambda>p.
              thenE (if_proc proc_composer (\<lambda>_. proc_terminate p))
                    (bindE (proc_wait w 324 p) (\<lambda>_. returnE ()))))
           (\<lambda>s. (Inr (res s), s))))"

text \<open>Lines 328 to 336: the body of \<open>except KeyboardInterrupt\<close>.\<close>

definition on_keyboard_interrupt :: "world \<Rightarrow> unit prog" where
  "on_keyboard_interrupt w =
     thenE (if_proc proc_worker (\<lambda>p.
              thenE (proc_terminate p) (bindE (proc_wait w 330 p) (\<lambda>_. returnE ()))))
    (thenE (if_proc proc_dnf_json (\<lambda>p.
              thenE (proc_terminate p) (bindE (proc_wait w 333 p) (\<lambda>_. returnE ()))))
           (if_proc proc_composer (\<lambda>p.
              thenE (proc_terminate p)
                    (bindE (proc_wait w 336 p) (\<lambda>r. modify (\<lambda>s. s\<lparr>res := r\<rparr>))))))"

text \<open>Lines 338 to 343: the body of the bare \<open>except\<close>, before \<open>raise\<close>.\<close>

definition on_exception :: "unit prog" where
  "on_exception =
     thenE (if_proc proc_worker proc_kill)
    (thenE (if_proc proc_dnf_json proc_kill)
           (if_proc proc_composer proc_kill))"

text \<open>
  \<open>_prepare_sockets\<close> is called before the \<open>try\<close>: what it raises leaves \<open>run\<close> with no
  handler. An exception raised inside a handler leaves \<open>run\<close> as well.
\<close>

definition run :: "world \<Rightarrow> args \<Rightarrow> int prog" where
  "run w a =
     thenE run_init
    (bindE (prepare_sockets w a) (\<lambda>socks.
       try_except (thenE (run_spawn w a socks) (run_wait w))
         (\<lambda>e. if e = KeyboardInterrupt
              then thenE (on_keyboard_interrupt w) (\<lambda>s. (Inr (res s), s))
              else thenE on_exception (raiseE e))))"

section \<open>The context manager and the program\<close>

text \<open>\<open>Cli.__enter__\<close>: a new, empty exit stack (the arguments are given parsed).\<close>

definition Cli_enter :: "state \<Rightarrow> state" where
  "Cli_enter s = s\<lparr>exitstack := []\<rparr>"

text \<open>
  \<open>Cli.__exit__\<close>: \<open>ExitStack.close()\<close> leaves the registered contexts latest first, and
  \<open>closing\<close> closes its socket. It returns \<open>None\<close>, so an exception goes on.
\<close>

definition Cli_exit :: "state \<Rightarrow> state" where
  "Cli_exit s = (fold sock_close (exitstack s) s)\<lparr>exitstack := []\<rparr>"

text \<open>
  \<open>with Cli(sys.argv) as global_main: sys.exit(global_main.run())\<close>. \<open>Inr r\<close> is the exit
  status \<open>r\<close> handed to \<open>sys.exit\<close>, \<open>Inl e\<close> an exception that ends the program.
\<close>

definition main :: "world \<Rightarrow> args \<Rightarrow> state \<Rightarrow> (exc + int) \<times> state" where
  "main w a s = (case run w a (Cli_enter s) of (r, s') \<Rightarrow> (r, Cli_exit s'))"

section \<open>Notions used by the properties\<close>

text \<open>
  The supervisor at program start: the descriptors \<open>fds\<close> are open, the environment is
  \<open>env\<close>, nothing has happened yet.
\<close>

definition boot :: "nat list \<Rightarrow> environment \<Rightarrow> state" where
  "boot fds env = \<lparr>open_fds = fds, environ = env, exitstack = [], trace = [],
                   proc_composer = None, proc_worker = None, proc_dnf_json = None, res = 0\<rparr>"

text \<open>
  The logical names of the enabled activation sockets in the fixed creation order:
  primary API unix socket, primary API network socket, local worker unix socket, remote
  worker network socket.
\<close>

definition enabled_socket_names :: "args \<Rightarrow> string list" where
  "enabled_socket_names a =
     (if weldr_api a then [''osbuild-composer.socket''] else []) @
     (if composer_api a then [''osbuild-composer-api.socket''] else []) @
     (if local_worker_api a then [''osbuild-local-worker.socket''] else []) @
     (if remote_worker_api a then [''osbuild-remote-worker.socket''] else [])"

text \<open>The state once a socket with descriptor \<open>fd\<close> is created and registered for closing.\<close>

definition opened :: "nat \<Rightarrow> state \<Rightarrow> state" where
  "opened fd s = s\<lparr>open_fds := fd # open_fds s, exitstack := fd # exitstack s,
                   trace := trace s @ [EvSocket fd]\<rparr>"

text \<open>The locals of \<open>_prepare_sockets\<close> once a socket named \<open>nm\<close> passed its assertion.\<close>

definition push :: "string \<Rightarrow> locals \<Rightarrow> locals" where
  "push nm l = l\<lparr>sockets := sockets l @ [index l], names := names l @ [nm],
                 index := Suc (index l)\<rparr>"

subsection \<open>Concrete runs\<close>

text \<open>A world where no call fails and no interrupt arrives; the primary server exits with 3.\<close>

definition calm :: world where
  "calm = \<lparr>fault = (\<lambda>l. False), interrupt = (\<lambda>l. False),
           exit_code = (\<lambda>n. case n of Composer \<Rightarrow> 3 | Worker \<Rightarrow> 7 | DnfJson \<Rightarrow> 9),
           fork_pid = (\<lambda>n. case n of Composer \<Rightarrow> 42 | Worker \<Rightarrow> 40 | DnfJson \<Rightarrow> 41)\<rparr>"

text \<open>The composer API on its default port and the local worker API, with both helpers.\<close>

definition args_full :: args where
  "args_full = \<lparr>builtin_worker = True, composer_api = True, composer_api_port = 443,
                local_worker_api = True, remote_worker_api = False, weldr_api = False,
                dnf_json = True, dnf_json_port = 0\<rparr>"

text \<open>
  Everything that the command line can enable: the four socket features and \<open>dnf-json\<close>.
  No option sets \<open>builtin_worker\<close>, whose default is \<open>False\<close>.
\<close>

definition args_all :: args where
  "args_all = \<lparr>builtin_worker = False, composer_api = True, composer_api_port = 443,
               local_worker_api = True, remote_worker_api = True, weldr_api = True,
               dnf_json = True, dnf_json_port = 0\<rparr>"

text \<open>The ports that are given on the command line can be bound to.\<close>

definition ports_ok :: "args \<Rightarrow> bool" where
  "ports_ok a =
     ((composer_api a \<longrightarrow> 0 \<le> composer_api_port a \<and> composer_api_port a \<le> 65535) \<and>
      (dnf_json a \<longrightarrow> 0 \<le> dnf_json_port a \<and> dnf_json_port a \<le> 65535))"

subsection \<open>Triples\<close>

text \<open>
  From a state where \<open>P\<close> holds, \<open>m\<close> either returns \<open>x\<close> in a state with \<open>Q x\<close>, or
  raises \<open>e\<close> in a state with \<open>E e\<close>.
\<close>

definition triple ::
  "(state \<Rightarrow> bool) \<Rightarrow> 'a prog \<Rightarrow> ('a \<Rightarrow> state \<Rightarrow> bool) \<Rightarrow> (exc \<Rightarrow> state \<Rightarrow> bool) \<Rightarrow> bool" where
  "triple P m Q E =
     ((\<forall>s x s'. P s \<longrightarrow> m s = (Inr x, s') \<longrightarrow> Q x s') \<and>
      (\<forall>s e s'. P s \<longrightarrow> m s = (Inl e, s') \<longrightarrow> E e s'))"

text \<open>
  What one block of \<open>_prepare_sockets\<close> can do when its feature is \<open>flag\<close> and its socket
  is named \<open>nm\<close>: nothing; fail to create the socket; or create and register it and then
  fail to configure it, fail its assertion, or go on with the socket recorded.
\<close>

definition block_outcome ::
  "bool \<Rightarrow> string \<Rightarrow> locals \<Rightarrow> state \<Rightarrow> (exc + locals) \<Rightarrow> state \<Rightarrow> bool" where
  "block_outcome flag nm l s r s' =
      (if \<not> flag then r = Inr l \<and> s' = s
       else (r = Inl OSError \<and> s' = s) \<or>
            (s' = opened (lowest_free (open_fds s)) s \<and>
               (r = Inl OSError \<or> r = Inl OverflowError \<or>
                (r = Inl AssertionError \<and> lowest_free (open_fds s) \<noteq> index l) \<or>
                (r = Inr (push nm l) \<and> lowest_free (open_fds s) = index l))))"

subsection \<open>Events of child processes\<close>

text \<open>The events of a trace that concern a child process, in order.\<close>

definition is_proc_event :: "event \<Rightarrow> bool" where
  "is_proc_event e = (case e of EvSocket fd \<Rightarrow> False | EvClose fd \<Rightarrow> False | _ \<Rightarrow> True)"

definition proc_events :: "event list \<Rightarrow> event list" where
  "proc_events tr = filter is_proc_event tr"

text \<open>The descriptors of the sockets created, and of the sockets closed, in order.\<close>

definition created :: "event list \<Rightarrow> nat list" where
  "created tr = concat (map (\<lambda>e. case e of EvSocket fd \<Rightarrow> [fd] | _ \<Rightarrow> []) tr)"

definition closed :: "event list \<Rightarrow> nat list" where
  "closed tr = concat (map (\<lambda>e. case e of EvClose fd \<Rightarrow> [fd] | _ \<Rightarrow> []) tr)"

text \<open>The children as the three \<open>_spawn_\<close> functions start them, from the environment \<open>env\<close>.\<close>

definition worker_child :: "world \<Rightarrow> environment \<Rightarrow> child" where
  "worker_child w env =
     \<lparr>ch_name = Worker, ch_pid = fork_pid w Worker,
      ch_cmd = [''/usr/libexec/osbuild-composer/osbuild-worker'', ''-unix'',
                ''/run/osbuild-composer/job.socket''],
      ch_cwd = ''/'',
      ch_env = env(''CACHE_DIRECTORY'' \<mapsto> ''/var/cache/osbuild-worker'',
                   ''STATE_DIRECTORY'' \<mapsto> ''/var/lib/osbuild-worker''),
      ch_pass_fds = []\<rparr>"

definition dnf_json_child :: "world \<Rightarrow> nat \<Rightarrow> environment \<Rightarrow> child" where
  "dnf_json_child w fd env =
     \<lparr>ch_name = DnfJson, ch_pid = fork_pid w DnfJson,
      ch_cmd = [''/usr/libexec/osbuild-composer/dnf-json''],
      ch_cwd = ''/usr/libexec/osbuild-composer'',
      ch_env = env(''LISTEN_FDS'' \<mapsto> ''1'', ''LISTEN_FD'' \<mapsto> str fd),
      ch_pass_fds = [fd]\<rparr>"

definition composer_child :: "world \<Rightarrow> sock list \<Rightarrow> environment \<Rightarrow> child" where
  "composer_child w socks env =
     \<lparr>ch_name = Composer, ch_pid = fork_pid w Composer,
      ch_cmd = [''/usr/libexec/osbuild-composer/osbuild-composer'', ''-verbose''],
      ch_cwd = ''/usr/libexec/osbuild-composer'',
      ch_env = env(''CACHE_DIRECTORY'' \<mapsto> ''/var/cache/osbuild-composer'',
                   ''STATE_DIRECTORY'' \<mapsto> ''/var/lib/osbuild-composer'',
                   ''LISTEN_PID'' \<mapsto> str (fork_pid w Composer)),
      ch_pass_fds = socks\<rparr>"

text \<open>The start events of the children that the variables of \<open>run\<close> hold, in start order.\<close>

definition spawn_events :: "state \<Rightarrow> event list" where
  "spawn_events s =
     (if proc_worker s \<noteq> None then [EvSpawn Worker] else []) @
     (if proc_dnf_json s \<noteq> None then [EvSpawn DnfJson] else []) @
     (if proc_composer s \<noteq> None then [EvSpawn Composer] else [])"

text \<open>Each variable of \<open>run\<close> holds the child of its name, if any.\<close>

definition well_named :: "state \<Rightarrow> bool" where
  "well_named s =
     ((\<forall>c. proc_worker s = Some c \<longrightarrow> ch_name c = Worker) \<and>
      (\<forall>c. proc_dnf_json s = Some c \<longrightarrow> ch_name c = DnfJson) \<and>
      (\<forall>c. proc_composer s = Some c \<longrightarrow> ch_name c = Composer))"

text \<open>Whether a primary server is to be started (line 310).\<close>

definition primary_enabled :: "args \<Rightarrow> bool" where
  "primary_enabled a = any [weldr_api a, composer_api a, local_worker_api a, remote_worker_api a]"

text \<open>The start events of the children that \<open>run\<close> is to start, in start order.\<close>

definition planned_spawns :: "args \<Rightarrow> event list" where
  "planned_spawns a =
     (if builtin_worker a then [EvSpawn Worker] else []) @
     (if dnf_json a then [EvSpawn DnfJson] else []) @
     (if primary_enabled a then [EvSpawn Composer] else [])"

text \<open>
  What lines 313 to 326 do to the children when no \<open>wait()\<close> is interrupted, what the
  handler of \<open>KeyboardInterrupt\<close> does to them, and what the bare handler does to them.
\<close>

definition normal_cascade :: "state \<Rightarrow> event list" where
  "normal_cascade s =
     (if proc_composer s \<noteq> None then [EvWait Composer] else []) @
     (if proc_worker s \<noteq> None
      then (if proc_composer s \<noteq> None then [EvTerminate Worker] else []) @ [EvWait Worker]
      else []) @
     (if proc_dnf_json s \<noteq> None
      then (if proc_composer s \<noteq> None then [EvTerminate DnfJson] else []) @ [EvWait DnfJson]
      else [])"

definition interrupt_cascade :: "state \<Rightarrow> event list" where
  "interrupt_cascade s =
     (if proc_worker s \<noteq> None then [EvTerminate Worker, EvWait Worker] else []) @
     (if proc_dnf_json s \<noteq> None then [EvTerminate DnfJson, EvWait DnfJson] else []) @
     (if proc_composer s \<noteq> None then [EvTerminate Composer, EvWait Composer] else [])"

definition kill_cascade :: "state \<Rightarrow> event list" where
  "kill_cascade s =
     (if proc_worker s \<noteq> None then [EvKill Worker] else []) @
     (if proc_dnf_json s \<noteq> None then [EvKill DnfJson] else []) @
     (if proc_composer s \<noteq> None then [EvKill Composer] else [])"

text \<open>
  The same two lists for a run that started every child it was to start: what lines 313 to
  326 do when no \<open>wait()\<close> is interrupted, and what the handler of \<open>KeyboardInterrupt\<close>
  does.
\<close>

definition normal_shutdown :: "args \<Rightarrow> event list" where
  "normal_shutdown a =
     (if primary_enabled a then [EvWait Composer] else []) @
     (if builtin_worker a
      then (if primary_enabled a then [EvTerminate Worker] else []) @ [EvWait Worker]
      else []) @
     (if dnf_json a
      then (if primary_enabled a then [EvTerminate DnfJson] else []) @ [EvWait DnfJson]
      else [])"

definition interrupt_shutdown :: "args \<Rightarrow> event list" where
  "interrupt_shutdown a =
     (if builtin_worker a then [EvTerminate Worker, EvWait Worker] else []) @
     (if dnf_json a then [EvTerminate DnfJson, EvWait DnfJson] else []) @
     (if primary_enabled a then [EvTerminate Composer, EvWait Composer] else [])"

text \<open>Whether a variable of \<open>run\<close> holds the child of that name.\<close>

definition has_child :: "state \<Rightarrow> proc_name \<Rightarrow> bool" where
  "has_child s n =
     (case n of Composer \<Rightarrow> proc_composer s \<noteq> None
              | Worker \<Rightarrow> proc_worker s \<noteq> None
              | DnfJson \<Rightarrow> proc_dnf_json s \<noteq> None)"

text \<open>An event that asks a child held by \<open>run\<close> to end, or collects its end.\<close>

definition is_cascade_event :: "state \<Rightarrow> event \<Rightarrow> bool" where
  "is_cascade_event s e =
     (case e of EvWait n \<Rightarrow> has_child s n | EvTerminate n \<Rightarrow> has_child s n
              | EvKill n \<Rightarrow> has_child s n | _ \<Rightarrow> False)"

text \<open>
  The sockets of the supervisor that started with the descriptors \<open>fds\<close>: every socket
  created so far is open and registered in the exit stack, once, latest first, and none
  was closed.
\<close>

definition sock_inv :: "nat list \<Rightarrow> state \<Rightarrow> bool" where
  "sock_inv fds s =
     (distinct (exitstack s) \<and> open_fds s = exitstack s @ fds \<and>
      set (exitstack s) \<inter> set fds = {} \<and>
      created (trace s) = rev (exitstack s) \<and> closed (trace s) = [])"

text \<open>The start events of a trace, in order.\<close>

definition spawned :: "event list \<Rightarrow> event list" where
  "spawned tr = filter (\<lambda>e. case e of EvSpawn n \<Rightarrow> True | _ \<Rightarrow> False) tr"

text \<open>
  Further concrete worlds: the wait for the primary server is interrupted; the wait for
  \<open>dnf-json\<close> is interrupted, after the primary server has exited; the start of
  \<open>dnf-json\<close> is interrupted; the primary server cannot be started; the local worker socket
  cannot listen. And the arguments that enable \<open>dnf-json\<close> alone.
\<close>

definition interrupting :: world where
  "interrupting = calm\<lparr>interrupt := (\<lambda>l. l = 314)\<rparr>"

definition interrupting_helper :: world where
  "interrupting_helper = calm\<lparr>interrupt := (\<lambda>l. l = 324)\<rparr>"

definition interrupting_start :: world where
  "interrupting_start = calm\<lparr>interrupt := (\<lambda>l. l = 285)\<rparr>"

definition primary_missing :: world where
  "primary_missing = calm\<lparr>fault := (\<lambda>l. l = 254)\<rparr>"

definition listen_failing :: world where
  "listen_failing = calm\<lparr>fault := (\<lambda>l. l = 186)\<rparr>"


subsection \<open>The order of starting and ending\<close>

text \<open>
  A helper is started; a helper is asked to end (\<open>terminate()\<close> or \<open>kill()\<close>); a helper is
  asked to end or waited for; the primary server has ended (its \<open>wait()\<close> returned) or is
  asked to end.
\<close>

definition helper_spawn :: "event \<Rightarrow> bool" where
  "helper_spawn e = (e = EvSpawn Worker \<or> e = EvSpawn DnfJson)"

definition helper_end :: "event \<Rightarrow> bool" where
  "helper_end e =
     (e = EvTerminate Worker \<or> e = EvTerminate DnfJson \<or> e = EvKill Worker \<or> e = EvKill DnfJson)"

definition helper_cascade :: "event \<Rightarrow> bool" where
  "helper_cascade e = (helper_end e \<or> e = EvWait Worker \<or> e = EvWait DnfJson)"

definition primary_end :: "event \<Rightarrow> bool" where
  "primary_end e = (e = EvWait Composer \<or> e = EvTerminate Composer \<or> e = EvKill Composer)"

text \<open>No helper is started once the primary server is started.\<close>

definition helpers_spawned_first :: "event list \<Rightarrow> bool" where
  "helpers_spawned_first tr =
     (\<not> list_ex helper_spawn (dropWhile (\<lambda>e. \<not> e = EvSpawn Composer) tr))"

text \<open>No helper is asked to end before the primary server has ended or is asked to end.\<close>

definition helpers_ended_after_primary :: "event list \<Rightarrow> bool" where
  "helpers_ended_after_primary tr =
     (\<not> list_ex helper_end (takeWhile (\<lambda>e. \<not> primary_end e) tr))"

text \<open>
  Once the primary server has ended or is asked to end, no helper is asked to end or waited
  for any more: the helpers were dealt with before.
\<close>

definition helpers_ended_before_primary :: "event list \<Rightarrow> bool" where
  "helpers_ended_before_primary tr =
     (\<not> list_ex helper_cascade (dropWhile (\<lambda>e. \<not> primary_end e) tr))"

section \<open>Projections of the trace\<close>

lemma proc_events_append [simp]: "proc_events (xs @ ys) = proc_events xs @ proc_events ys"
  by (simp add: proc_events_def)

lemma proc_events_simps [simp]:
  "proc_events [] = []"
  "proc_events (EvSocket fd # es) = proc_events es"
  "proc_events (EvClose fd # es) = proc_events es"
  "proc_events (EvSpawn n # es) = EvSpawn n # proc_events es"
  "proc_events (EvWait n # es) = EvWait n # proc_events es"
  "proc_events (EvTerminate n # es) = EvTerminate n # proc_events es"
  "proc_events (EvKill n # es) = EvKill n # proc_events es"
  by (simp_all add: proc_events_def is_proc_event_def)

lemma created_append [simp]: "created (xs @ ys) = created xs @ created ys"
  by (simp add: created_def)

lemma closed_append [simp]: "closed (xs @ ys) = closed xs @ closed ys"
  by (simp add: closed_def)

lemma created_simps [simp]:
  "created [] = []"
  "created (EvSocket fd # es) = fd # created es"
  "created (EvClose fd # es) = created es"
  "created (EvSpawn n # es) = created es"
  "created (EvWait n # es) = created es"
  "created (EvTerminate n # es) = created es"
  "created (EvKill n # es) = created es"
  by (simp_all add: created_def)

lemma closed_simps [simp]:
  "closed [] = []"
  "closed (EvSocket fd # es) = closed es"
  "closed (EvClose fd # es) = fd # closed es"
  "closed (EvSpawn n # es) = closed es"
  "closed (EvWait n # es) = closed es"
  "closed (EvTerminate n # es) = closed es"
  "closed (EvKill n # es) = closed es"
  by (simp_all add: closed_def)

section \<open>Rules for triples\<close>

lemma tripleI:
  "(\<And>s x s'. P s \<Longrightarrow> m s = (Inr x, s') \<Longrightarrow> Q x s') \<Longrightarrow>
   (\<And>s e s'. P s \<Longrightarrow> m s = (Inl e, s') \<Longrightarrow> E e s') \<Longrightarrow> triple P m Q E"
  unfolding triple_def by blast

lemma tripleD_Inr: "triple P m Q E \<Longrightarrow> P s \<Longrightarrow> m s = (Inr x, s') \<Longrightarrow> Q x s'"
  unfolding triple_def by blast

lemma tripleD_Inl: "triple P m Q E \<Longrightarrow> P s \<Longrightarrow> m s = (Inl e, s') \<Longrightarrow> E e s'"
  unfolding triple_def by blast

lemma bindE_cases:
  assumes "bindE m f s = (r, s'')"
  obtains (raised) e where "m s = (Inl e, s'')" "r = Inl e"
  | (returned) x s' where "m s = (Inr x, s')" "f x s' = (r, s'')"
proof (cases "m s")
  case (Pair r1 s1)
  show thesis
  proof (cases r1)
    case (Inl e)
    with Pair assms show thesis by (intro raised [of e]) (simp_all add: bindE_def)
  next
    case (Inr x)
    with Pair assms show thesis by (intro returned [of x s1]) (simp_all add: bindE_def)
  qed
qed

lemma triple_bindE:
  assumes m: "triple P m Q E" and f: "\<And>x. triple (Q x) (f x) R E"
  shows "triple P (bindE m f) R E"
proof (rule tripleI)
  fix s y s'' assume P: "P s" and b: "bindE m f s = (Inr y, s'')"
  from b show "R y s''"
  proof (cases rule: bindE_cases)
    case (raised e) then show ?thesis by simp
  next
    case (returned x s')
    from tripleD_Inr [OF m P returned(1)] have "Q x s'" .
    from tripleD_Inr [OF f this returned(2)] show ?thesis .
  qed
next
  fix s e s'' assume P: "P s" and b: "bindE m f s = (Inl e, s'')"
  from b show "E e s''"
  proof (cases rule: bindE_cases)
    case (raised e') then show ?thesis using tripleD_Inl [OF m P] by simp
  next
    case (returned x s')
    from tripleD_Inr [OF m P returned(1)] have "Q x s'" .
    from tripleD_Inl [OF f this returned(2)] show ?thesis .
  qed
qed

lemma triple_thenE:
  "triple P m (\<lambda>_. Q) E \<Longrightarrow> triple Q n R E \<Longrightarrow> triple P (thenE m n) R E"
  unfolding thenE_def by (rule triple_bindE)

lemma triple_returnE: "(\<And>s. P s \<Longrightarrow> Q x s) \<Longrightarrow> triple P (returnE x) Q E"
  by (simp add: triple_def returnE_def)

lemma triple_pre:
  "triple P' m Q E \<Longrightarrow> (\<And>s. P s \<Longrightarrow> P' s) \<Longrightarrow> triple P m Q E"
  unfolding triple_def by blast

lemma try_except_cases:
  assumes "try_except body handler s = (r, s'')"
  obtains (returned) x where "body s = (Inr x, s'')" "r = Inr x"
  | (handled) e s' where "body s = (Inl e, s')" "handler e s' = (r, s'')"
proof (cases "body s")
  case (Pair r1 s1)
  show thesis
  proof (cases r1)
    case (Inl e)
    with Pair assms show thesis by (intro handled [of e s1]) (simp_all add: try_except_def)
  next
    case (Inr x)
    with Pair assms show thesis by (intro returned [of x]) (simp_all add: try_except_def)
  qed
qed

lemma triple_environ_set:
  "(\<And>s. P s \<Longrightarrow> Q () (s\<lparr>environ := (environ s)(k \<mapsto> v)\<rparr>)) \<Longrightarrow> triple P (environ_set k v) Q E"
  by (simp add: triple_def environ_set_def)

section \<open>Descriptor allocation\<close>

lemma lowest_free_notin: "lowest_free fds \<notin> set fds"
proof -
  let ?xs = "[0 ..< Suc (length fds)]"
  let ?P = "\<lambda>n. n \<in> set fds"
  let ?k = "length (takeWhile ?P ?xs)"
  have "?k < length ?xs"
  proof (rule ccontr)
    assume "\<not> ?k < length ?xs"
    then have "?k = length ?xs" using length_takeWhile_le [of ?P ?xs] by linarith
    then have "takeWhile ?P ?xs = ?xs" by (metis takeWhile_eq_take take_all order_refl)
    then have "\<forall>x\<in>set ?xs. ?P x" by (metis set_takeWhileD)
    then have "set ?xs \<subseteq> set fds" by blast
    then have "{0 ..< Suc (length fds)} \<subseteq> set fds" by (simp only: set_upt)
    then have "card {0 ..< Suc (length fds)} \<le> card (set fds)" by (intro card_mono) auto
    then show False using card_length [of fds] by simp
  qed
  then have "\<not> ?P (?xs ! ?k)" by (rule nth_length_takeWhile)
  moreover have "?xs ! ?k = ?k" using \<open>?k < length ?xs\<close> by (metis add_0 length_upt nth_upt diff_zero)
  ultimately show ?thesis by (simp add: lowest_free_def)
qed

lemma lowest_free_upto: 
  assumes "set fds = {0 ..< n}" shows "lowest_free fds = n"
proof -
  have n: "n \<le> length fds" using card_length [of fds] assms by simp
  have "[0 ..< Suc (length fds)] = [0 ..< n] @ [n ..< Suc (length fds)]"
    using n by (metis le_SucI upt_add_eq_append le_add_diff_inverse zero_le)
  moreover have "[n ..< Suc (length fds)] = n # [Suc n ..< Suc (length fds)]"
    using n by (simp add: upt_conv_Cons)
  ultimately have "takeWhile (\<lambda>k. k \<in> set fds) [0 ..< Suc (length fds)] = [0 ..< n]"
    using assms by (simp add: takeWhile_append2 takeWhile_tail)
  then show ?thesis by (simp add: lowest_free_def)
qed

lemmas prims = bindE_def thenE_def returnE_def raiseE_def whenE_def modify_def log_def
  socket_socket_def enter_context_closing_def setsockopt_def sock_bind_def sock_listen_def
  py_assert_def environ_set_def fileno_def


lemmas blocks = prepare_weldr_def prepare_composer_api_def prepare_local_worker_def prepare_remote_worker_def

lemma prepare_weldr_Inr:
  "prepare_weldr w a l s = (Inr l', s') \<Longrightarrow>
     (if weldr_api a then l' = push ''osbuild-composer.socket'' l \<and> s' = opened (index l) s \<and> lowest_free (open_fds s) = index l
      else l' = l \<and> s' = s)"
  by (auto simp: prepare_weldr_def prims opened_def push_def Let_def split: if_splits)

lemma prepare_composer_api_Inr:
  "prepare_composer_api w a l s = (Inr l', s') \<Longrightarrow>
     (if composer_api a then l' = push ''osbuild-composer-api.socket'' l \<and> s' = opened (index l) s \<and> lowest_free (open_fds s) = index l
      else l' = l \<and> s' = s)"
  by (auto simp: prepare_composer_api_def prims opened_def push_def Let_def split: if_splits)

lemma prepare_local_worker_Inr:
  "prepare_local_worker w a l s = (Inr l', s') \<Longrightarrow>
     (if local_worker_api a then l' = push ''osbuild-local-worker.socket'' l \<and> s' = opened (index l) s \<and> lowest_free (open_fds s) = index l
      else l' = l \<and> s' = s)"
  by (auto simp: prepare_local_worker_def prims opened_def push_def Let_def split: if_splits)

lemma prepare_remote_worker_Inr:
  "prepare_remote_worker w a l s = (Inr l', s') \<Longrightarrow>
     (if remote_worker_api a then l' = push ''osbuild-remote-worker.socket'' l \<and> s' = opened (index l) s \<and> lowest_free (open_fds s) = index l
      else l' = l \<and> s' = s)"
  by (auto simp: prepare_remote_worker_def prims opened_def push_def Let_def split: if_splits)

lemma bindE_Inr:
  assumes "bindE m f s = (Inr y, s'')"
  obtains x s' where "m s = (Inr x, s')" and "f x s' = (Inr y, s'')"
  using assms by (auto simp: bindE_def split: prod.splits sum.splits)

lemma prepare_sockets_Inr:
  assumes "prepare_sockets w a s = (Inr socks, s')"
  obtains l1 s1 l2 s2 l3 s3 l4 s4 where
    "prepare_weldr w a \<lparr>index = 3, sockets = [], names = []\<rparr> s = (Inr l1, s1)"
    "prepare_composer_api w a l1 s1 = (Inr l2, s2)"
    "prepare_local_worker w a l2 s2 = (Inr l3, s3)"
    "prepare_remote_worker w a l3 s3 = (Inr l4, s4)"
    "socks = sockets l4"
    "s' = s4\<lparr>environ := (environ s4)(''LISTEN_FDS'' \<mapsto> str (length (sockets l4)),
                                     ''LISTEN_FDNAMES'' \<mapsto> join '':'' (names l4))\<rparr>"
proof -
  from assms obtain l1 s1 where 1: "prepare_weldr w a \<lparr>index = 3, sockets = [], names = []\<rparr> s = (Inr l1, s1)"
    and r1: "bindE (prepare_composer_api w a l1) (\<lambda>l2.
     bindE (prepare_local_worker w a l2) (\<lambda>l3.
     bindE (prepare_remote_worker w a l3) (\<lambda>l4.
     thenE (environ_set ''LISTEN_FDS'' (str (length (sockets l4))))
    (thenE (environ_set ''LISTEN_FDNAMES'' (join '':'' (names l4)))
    (returnE (sockets l4)))))) s1 = (Inr socks, s')"
    unfolding prepare_sockets_def by (erule bindE_Inr)
  from r1 obtain l2 s2 where 2: "prepare_composer_api w a l1 s1 = (Inr l2, s2)"
    and r2: "bindE (prepare_local_worker w a l2) (\<lambda>l3.
     bindE (prepare_remote_worker w a l3) (\<lambda>l4.
     thenE (environ_set ''LISTEN_FDS'' (str (length (sockets l4))))
    (thenE (environ_set ''LISTEN_FDNAMES'' (join '':'' (names l4)))
    (returnE (sockets l4))))) s2 = (Inr socks, s')"
    by (erule bindE_Inr)
  from r2 obtain l3 s3 where 3: "prepare_local_worker w a l2 s2 = (Inr l3, s3)"
    and r3: "bindE (prepare_remote_worker w a l3) (\<lambda>l4.
     thenE (environ_set ''LISTEN_FDS'' (str (length (sockets l4))))
    (thenE (environ_set ''LISTEN_FDNAMES'' (join '':'' (names l4)))
    (returnE (sockets l4)))) s3 = (Inr socks, s')"
    by (erule bindE_Inr)
  from r3 obtain l4 s4 where 4: "prepare_remote_worker w a l3 s3 = (Inr l4, s4)"
    and r4: "thenE (environ_set ''LISTEN_FDS'' (str (length (sockets l4))))
    (thenE (environ_set ''LISTEN_FDNAMES'' (join '':'' (names l4)))
    (returnE (sockets l4))) s4 = (Inr socks, s')"
    by (erule bindE_Inr)
  from r4 have "socks = sockets l4"
    "s' = s4\<lparr>environ := (environ s4)(''LISTEN_FDS'' \<mapsto> str (length (sockets l4)),
                                     ''LISTEN_FDNAMES'' \<mapsto> join '':'' (names l4))\<rparr>"
    by (auto simp: thenE_def bindE_def environ_set_def returnE_def)
  with 1 2 3 4 show thesis by (rule that)
qed

lemma blocks_Inr:
  assumes "prepare_weldr w a \<lparr>index = 3, sockets = [], names = []\<rparr> s = (Inr l1, s1)"
    "prepare_composer_api w a l1 s1 = (Inr l2, s2)"
    "prepare_local_worker w a l2 s2 = (Inr l3, s3)"
    "prepare_remote_worker w a l3 s3 = (Inr l4, s4)"
  shows "names l4 = enabled_socket_names a"
    and "sockets l4 = [3 ..< 3 + length (enabled_socket_names a)]"
    and "s4 = s\<lparr>open_fds := rev (sockets l4) @ open_fds s, exitstack := rev (sockets l4) @ exitstack s,
                 trace := trace s @ map EvSocket (sockets l4)\<rparr>"
proof -
  note f = prepare_weldr_Inr [OF assms(1)] prepare_composer_api_Inr [OF assms(2)]
    prepare_local_worker_Inr [OF assms(3)] prepare_remote_worker_Inr [OF assms(4)]
  show "names l4 = enabled_socket_names a"
    using f by (cases "weldr_api a"; cases "composer_api a"; cases "local_worker_api a"; cases "remote_worker_api a")
      (simp_all add: push_def enabled_socket_names_def)
  show "sockets l4 = [3 ..< 3 + length (enabled_socket_names a)]"
    using f by (cases "weldr_api a"; cases "composer_api a"; cases "local_worker_api a"; cases "remote_worker_api a")
      (simp_all add: push_def enabled_socket_names_def upt_rec)
  show "s4 = s\<lparr>open_fds := rev (sockets l4) @ open_fds s, exitstack := rev (sockets l4) @ exitstack s,
                 trace := trace s @ map EvSocket (sockets l4)\<rparr>"
    using f by (cases "weldr_api a"; cases "composer_api a"; cases "local_worker_api a"; cases "remote_worker_api a")
      (simp_all add: push_def opened_def)
qed

lemma prepare_sockets_ok:
  assumes "prepare_sockets w a s = (Inr socks, s')"
  shows "socks = [3 ..< 3 + length (enabled_socket_names a)]"
    and "s' = s\<lparr>open_fds := rev socks @ open_fds s, exitstack := rev socks @ exitstack s,
                 trace := trace s @ map EvSocket socks,
                 environ := (environ s)(''LISTEN_FDS'' \<mapsto> str (length (enabled_socket_names a)),
                                        ''LISTEN_FDNAMES'' \<mapsto> join '':'' (enabled_socket_names a))\<rparr>"
proof -
  from assms obtain l1 s1 l2 s2 l3 s3 l4 s4 where b:
    "prepare_weldr w a \<lparr>index = 3, sockets = [], names = []\<rparr> s = (Inr l1, s1)"
    "prepare_composer_api w a l1 s1 = (Inr l2, s2)"
    "prepare_local_worker w a l2 s2 = (Inr l3, s3)"
    "prepare_remote_worker w a l3 s3 = (Inr l4, s4)"
    and socks: "socks = sockets l4"
    and s': "s' = s4\<lparr>environ := (environ s4)(''LISTEN_FDS'' \<mapsto> str (length (sockets l4)),
                                     ''LISTEN_FDNAMES'' \<mapsto> join '':'' (names l4))\<rparr>"
    by (rule prepare_sockets_Inr)
  note bl = blocks_Inr [OF b]
  show 1: "socks = [3 ..< 3 + length (enabled_socket_names a)]"
    using socks bl(2) by simp
  have len: "length socks = length (enabled_socket_names a)" using 1 by simp
  show "s' = s\<lparr>open_fds := rev socks @ open_fds s, exitstack := rev socks @ exitstack s,
                 trace := trace s @ map EvSocket socks,
                 environ := (environ s)(''LISTEN_FDS'' \<mapsto> str (length (enabled_socket_names a)),
                                        ''LISTEN_FDNAMES'' \<mapsto> join '':'' (enabled_socket_names a))\<rparr>"
    unfolding s' bl(1) using bl(3) socks len by simp
qed

lemma block_weldr:
  "prepare_weldr w a l s = (r, s') \<Longrightarrow>
     block_outcome (weldr_api a) ''osbuild-composer.socket'' l s r s'"
  unfolding block_outcome_def prepare_weldr_def prims opened_def push_def Let_def
  by (auto split: if_splits)

lemma block_composer_api:
  "prepare_composer_api w a l s = (r, s') \<Longrightarrow>
     block_outcome (composer_api a) ''osbuild-composer-api.socket'' l s r s'"
  unfolding block_outcome_def prepare_composer_api_def prims opened_def push_def Let_def
  by (auto split: if_splits)

lemma block_local_worker:
  "prepare_local_worker w a l s = (r, s') \<Longrightarrow>
     block_outcome (local_worker_api a) ''osbuild-local-worker.socket'' l s r s'"
  unfolding block_outcome_def prepare_local_worker_def prims opened_def push_def Let_def
  by (auto split: if_splits)

lemma block_remote_worker:
  "prepare_remote_worker w a l s = (r, s') \<Longrightarrow>
     block_outcome (remote_worker_api a) ''osbuild-remote-worker.socket'' l s r s'"
  unfolding block_outcome_def prepare_remote_worker_def prims opened_def push_def Let_def
  by (auto split: if_splits)

text \<open>
  With the descriptors below the running index open and no other, a block does not fail
  its assertion, and leaves the descriptors so.
\<close>

lemma block_no_assert:
  assumes b: "\<And>s r s'. m s = (r, s') \<Longrightarrow> block_outcome flag nm l s r s'"
  shows "triple (\<lambda>s. set (open_fds s) = {0 ..< index l}) m
           (\<lambda>l' s. set (open_fds s) = {0 ..< index l'}) (\<lambda>e s. e \<noteq> AssertionError)"
proof (rule tripleI)
  fix s l' s' assume P: "set (open_fds s) = {0 ..< index l}" and m: "m s = (Inr l', s')"
  from b [OF m] P show "set (open_fds s') = {0 ..< index l'}"
    by (auto simp: block_outcome_def opened_def push_def atLeastLessThanSuc split: if_splits)
next
  fix s e s' assume P: "set (open_fds s) = {0 ..< index l}" and m: "m s = (Inl e, s')"
  have "lowest_free (open_fds s) = index l" using P by (rule lowest_free_upto)
  with b [OF m] show "e \<noteq> AssertionError"
    by (auto simp: block_outcome_def split: if_splits)
qed

lemma prepare_sockets_no_assert:
  "triple (\<lambda>s. set (open_fds s) = {0, 1, 2}) (prepare_sockets w a)
     (\<lambda>socks s. True) (\<lambda>e s. e \<noteq> AssertionError)"
proof -
  have tail: "\<And>P l4. triple P
      (thenE (environ_set ''LISTEN_FDS'' (str (length (sockets l4))))
      (thenE (environ_set ''LISTEN_FDNAMES'' (join '':'' (names l4)))
      (returnE (sockets l4)))) (\<lambda>socks s. True) (\<lambda>e s. e \<noteq> AssertionError)"
    by (simp add: triple_def thenE_def bindE_def environ_set_def returnE_def)
  have "triple (\<lambda>s. set (open_fds s) = {0 ..< index \<lparr>index = 3, sockets = [], names = []\<rparr>})
          (prepare_sockets w a) (\<lambda>socks s. True) (\<lambda>e s. e \<noteq> AssertionError)"
    unfolding prepare_sockets_def
    apply (rule triple_bindE [OF block_no_assert [OF block_weldr]], assumption)
    apply (rule triple_bindE [OF block_no_assert [OF block_composer_api]], assumption)
    apply (rule triple_bindE [OF block_no_assert [OF block_local_worker]], assumption)
    apply (rule triple_bindE [OF block_no_assert [OF block_remote_worker]], assumption)
    apply (rule tail)
    done
  then show ?thesis
    by (rule triple_pre) (auto simp: atLeastLessThanSuc)
qed

text \<open>
  When no call fails and the port can be bound to, a block can only stop at its assertion;
  so, started with the standard streams only, \<open>_prepare_sockets\<close> returns.
\<close>

lemma block_total:
  assumes b: "\<And>s r s'. m s = (r, s') \<Longrightarrow> block_outcome flag nm l s r s'"
    and nf: "\<And>s e s'. m s = (Inl e, s') \<Longrightarrow> e = AssertionError"
  shows "triple (\<lambda>s. set (open_fds s) = {0 ..< index l}) m
           (\<lambda>l' s. set (open_fds s) = {0 ..< index l'}) (\<lambda>e s. False)"
proof (rule tripleI)
  fix s l' s' assume "set (open_fds s) = {0 ..< index l}" "m s = (Inr l', s')"
  with block_no_assert [where m = m and flag = flag and nm = nm and l = l, OF b]
  show "set (open_fds s') = {0 ..< index l'}"
    by (rule tripleD_Inr)
next
  fix s e s' assume P: "set (open_fds s) = {0 ..< index l}" and m: "m s = (Inl e, s')"
  from tripleD_Inl [OF block_no_assert [where m = m and flag = flag and nm = nm and l = l, OF b]
      P m] nf [OF m]
  show False by simp
qed

lemma blocks_no_fault:
  assumes "\<forall>l. \<not> fault w l"
    and "composer_api a \<longrightarrow> 0 \<le> composer_api_port a \<and> composer_api_port a \<le> 65535"
  shows "prepare_weldr w a l s = (Inl e, s') \<Longrightarrow> e = AssertionError"
    and "prepare_composer_api w a l s = (Inl e, s') \<Longrightarrow> e = AssertionError"
    and "prepare_local_worker w a l s = (Inl e, s') \<Longrightarrow> e = AssertionError"
    and "prepare_remote_worker w a l s = (Inl e, s') \<Longrightarrow> e = AssertionError"
  using assms
  by (auto simp: blocks prims port_ok_def Let_def split: if_splits)

lemma prepare_sockets_returns:
  assumes nf: "\<forall>l. \<not> fault w l"
    and port: "composer_api a \<longrightarrow> 0 \<le> composer_api_port a \<and> composer_api_port a \<le> 65535"
    and fds: "set (open_fds s) = {0, 1, 2}"
  shows "fst (prepare_sockets w a s) = Inr [3 ..< 3 + length (enabled_socket_names a)]"
proof -
  have tail: "\<And>P l4. triple P
      (thenE (environ_set ''LISTEN_FDS'' (str (length (sockets l4))))
      (thenE (environ_set ''LISTEN_FDNAMES'' (join '':'' (names l4)))
      (returnE (sockets l4)))) (\<lambda>socks s. True) (\<lambda>e s. False)"
    by (simp add: triple_def thenE_def bindE_def environ_set_def returnE_def)
  note nfs = blocks_no_fault [OF nf port]
  have "triple (\<lambda>s. set (open_fds s) = {0 ..< index \<lparr>index = 3, sockets = [], names = []\<rparr>})
          (prepare_sockets w a) (\<lambda>socks s. True) (\<lambda>e s. False)"
    unfolding prepare_sockets_def
    apply (rule triple_bindE [OF block_total [OF block_weldr nfs(1)]], assumption, assumption)
    apply (rule triple_bindE [OF block_total [OF block_composer_api nfs(2)]], assumption, assumption)
    apply (rule triple_bindE [OF block_total [OF block_local_worker nfs(3)]], assumption, assumption)
    apply (rule triple_bindE [OF block_total [OF block_remote_worker nfs(4)]], assumption, assumption)
    apply (rule tail)
    done
  then have t: "triple (\<lambda>s. set (open_fds s) = {0, 1, 2}) (prepare_sockets w a)
      (\<lambda>socks s. True) (\<lambda>e s. False)"
    by (rule triple_pre) (auto simp: atLeastLessThanSuc)
  obtain r s' where p: "prepare_sockets w a s = (r, s')" by fastforce
  show ?thesis
  proof (cases r)
    case (Inl e)
    with tripleD_Inl [OF t fds] p show ?thesis by simp
  next
    case (Inr socks)
    with prepare_sockets_ok(1) [of w a s socks s'] p show ?thesis by simp
  qed
qed


lemma block_inv:
  assumes b: "\<And>s r s'. m s = (r, s') \<Longrightarrow> block_outcome flag nm l s r s'"
    and op: "\<And>s. I s \<Longrightarrow> I (opened (lowest_free (open_fds s)) s)"
  shows "triple I m (\<lambda>l'. I) (\<lambda>e. I)"
proof (rule tripleI)
  fix s l' s' assume "I s" "m s = (Inr l', s')"
  with b [of s "Inr l'" s'] op [of s] show "I s'"
    by (auto simp: block_outcome_def split: if_splits)
next
  fix s e s' assume "I s" "m s = (Inl e, s')"
  with b [of s "Inl e" s'] op [of s] show "I s'"
    by (auto simp: block_outcome_def split: if_splits)
qed

lemma prepare_sockets_inv:
  assumes op: "\<And>s. I s \<Longrightarrow> I (opened (lowest_free (open_fds s)) s)"
    and env: "\<And>s k v. I s \<Longrightarrow> k = ''LISTEN_FDS'' \<or> k = ''LISTEN_FDNAMES'' \<Longrightarrow>
                I (s\<lparr>environ := (environ s)(k \<mapsto> v)\<rparr>)"
  shows "triple I (prepare_sockets w a) (\<lambda>socks. I) (\<lambda>e. I)"
proof -
  have tail: "\<And>l4. triple I
      (thenE (environ_set ''LISTEN_FDS'' (str (length (sockets l4))))
      (thenE (environ_set ''LISTEN_FDNAMES'' (join '':'' (names l4)))
      (returnE (sockets l4)))) (\<lambda>socks. I) (\<lambda>e. I)"
    by (intro triple_thenE [where Q = I] triple_environ_set triple_returnE env) simp_all
  have b: "\<And>l. triple I (prepare_weldr w a l) (\<lambda>l'. I) (\<lambda>e. I)"
    "\<And>l. triple I (prepare_composer_api w a l) (\<lambda>l'. I) (\<lambda>e. I)"
    "\<And>l. triple I (prepare_local_worker w a l) (\<lambda>l'. I) (\<lambda>e. I)"
    "\<And>l. triple I (prepare_remote_worker w a l) (\<lambda>l'. I) (\<lambda>e. I)"
    by (rule block_inv [where I = I, OF block_weldr op] block_inv [where I = I, OF block_composer_api op]
        block_inv [where I = I, OF block_local_worker op]
        block_inv [where I = I, OF block_remote_worker op], assumption+)+
  show ?thesis
    unfolding prepare_sockets_def
    by (intro triple_bindE [where Q = "\<lambda>l'. I"] b tail)
qed


lemma prepare_sockets_boot_failed:
  assumes "prepare_sockets w a (boot fds env) = (Inl e, s')"
  shows "proc_worker s' = None" "proc_dnf_json s' = None" "proc_composer s' = None"
    "proc_events (trace s') = []"
proof -
  let ?I = "\<lambda>s. proc_worker s = None \<and> proc_dnf_json s = None \<and> proc_composer s = None \<and>
              proc_events (trace s) = []"
  have "triple ?I (prepare_sockets w a) (\<lambda>socks. ?I) (\<lambda>e. ?I)"
    by (rule prepare_sockets_inv) (simp_all add: opened_def)
  moreover have "?I (boot fds env)" by (simp add: boot_def)
  ultimately have "?I s'" using assms by (rule tripleD_Inl)
  then show "proc_worker s' = None" "proc_dnf_json s' = None" "proc_composer s' = None"
    "proc_events (trace s') = []" by simp_all
qed

section \<open>Starting the children\<close>

lemma spawn_worker_eq:
  "spawn_worker w s =
     (if fault w 226 then (Inl OSError, s)
      else if interrupt w 226 then (Inl KeyboardInterrupt, s)
      else (Inr (worker_child w (environ s)), log (EvSpawn Worker) s))"
  by (simp add: spawn_worker_def popen_def worker_child_def Let_def)

lemma spawn_composer_eq:
  "spawn_composer w socks s =
     (let s' = s\<lparr>environ := (environ s)(''CACHE_DIRECTORY'' \<mapsto> ''/var/cache/osbuild-composer'',
                                        ''STATE_DIRECTORY'' \<mapsto> ''/var/lib/osbuild-composer'')\<rparr>
      in if fault w 254 then (Inl OSError, s')
         else if interrupt w 254 then (Inl KeyboardInterrupt, s')
         else (Inr (composer_child w socks (environ s)), log (EvSpawn Composer) s'))"
  by (simp add: spawn_composer_def popen_def composer_child_def Let_def thenE_def bindE_def
      environ_set_def preexec_setenv_def fileno_def [abs_def] log_def)

lemma spawn_dnf_json_eq:
  "spawn_dnf_json w a s =
     (if (if dnf_json_port a \<noteq> 0 then fault w 269 else fault w 276) then (Inl OSError, s)
      else if dnf_json_port a \<noteq> 0 \<and> (fault w 271 \<or> fault w 272)
        then (Inl OSError, opened (lowest_free (open_fds s)) s)
      else if dnf_json_port a \<noteq> 0 \<and> \<not> (0 \<le> dnf_json_port a \<and> dnf_json_port a \<le> 65535)
        then (Inl OverflowError, opened (lowest_free (open_fds s)) s)
      else if (if dnf_json_port a \<noteq> 0 then fault w 273 \<or> fault w 274
               else fault w 278 \<or> fault w 279) \<or> fault w 285
        then (Inl OSError, opened (lowest_free (open_fds s)) s)
      else if interrupt w 285
        then (Inl KeyboardInterrupt, opened (lowest_free (open_fds s)) s)
      else (Inr (dnf_json_child w (lowest_free (open_fds s)) (environ s)),
            log (EvSpawn DnfJson) (opened (lowest_free (open_fds s)) s)))"
  by (simp add: spawn_dnf_json_def popen_def dnf_json_child_def prims opened_def Let_def port_ok_def)

lemmas spawn_eqs = spawn_worker_eq spawn_dnf_json_eq spawn_composer_eq

lemma run_spawn_post:
  assumes "proc_worker s = None" "proc_dnf_json s = None" "proc_composer s = None"
  shows "case run_spawn w a socks s of (r, s') \<Rightarrow>
           proc_events (trace s') = proc_events (trace s) @ spawn_events s' \<and>
           (proc_worker s' = None \<or>
              builtin_worker a \<and> proc_worker s' = Some (worker_child w (environ s))) \<and>
           (proc_dnf_json s' = None \<or>
              dnf_json a \<and> proc_dnf_json s' =
                Some (dnf_json_child w (lowest_free (open_fds s)) (environ s))) \<and>
           (proc_composer s' = None \<or>
              primary_enabled a \<and> r = Inr () \<and>
              proc_composer s' = Some (composer_child w socks (environ s))) \<and>
           (r = Inr () \<longrightarrow> spawn_events s' = planned_spawns a) \<and>
           prefix (spawn_events s') (planned_spawns a) \<and>
           (r = Inr () \<or> r = Inl OSError \<or> r = Inl OverflowError \<or> r = Inl KeyboardInterrupt) \<and>
           (open_fds s' = open_fds s \<and> exitstack s' = exitstack s \<and>
              created (trace s') = created (trace s) \<or>
            open_fds s' = lowest_free (open_fds s) # open_fds s \<and>
              exitstack s' = lowest_free (open_fds s) # exitstack s \<and>
              created (trace s') = created (trace s) @ [lowest_free (open_fds s)]) \<and>
           closed (trace s') = closed (trace s) \<and> res s' = res s \<and>
           environ s' ''LISTEN_FDS'' = environ s ''LISTEN_FDS'' \<and>
           environ s' ''LISTEN_FDNAMES'' = environ s ''LISTEN_FDNAMES'' \<and>
           environ s' ''LISTEN_PID'' = environ s ''LISTEN_PID''"
  using assms
  by (simp add: run_spawn_def thenE_def bindE_def whenE_def modify_def spawn_eqs log_def opened_def
      spawn_events_def planned_spawns_def primary_enabled_def [symmetric] Let_def)

text \<open>
  The start phase is left by \<open>KeyboardInterrupt\<close> only from a \<open>Popen\<close>; and it completes
  when no call fails and no \<open>Popen\<close> is interrupted.
\<close>

lemma run_spawn_interrupted:
  assumes "proc_worker s = None" "proc_dnf_json s = None" "proc_composer s = None"
  shows "case run_spawn w a socks s of (r, s') \<Rightarrow>
           r = Inl KeyboardInterrupt \<longrightarrow>
             builtin_worker a \<and> interrupt w 226 \<and> proc_worker s' = None \<and> proc_dnf_json s' = None \<or>
             dnf_json a \<and> interrupt w 285 \<and> proc_dnf_json s' = None \<or>
             primary_enabled a \<and> interrupt w 254"
  using assms
  by (simp add: run_spawn_def thenE_def bindE_def whenE_def modify_def spawn_eqs log_def opened_def
      primary_enabled_def [symmetric] Let_def)

lemma run_spawn_returns:
  assumes "\<forall>l. \<not> fault w l" "\<not> interrupt w 226" "\<not> interrupt w 254" "\<not> interrupt w 285"
    and "dnf_json a \<longrightarrow> 0 \<le> dnf_json_port a \<and> dnf_json_port a \<le> 65535"
  shows "fst (run_spawn w a socks s) = Inr ()"
  using assms
  by (simp add: run_spawn_def thenE_def bindE_def whenE_def modify_def spawn_eqs log_def opened_def
      Let_def)

section \<open>Waiting and the handlers\<close>

lemmas wait_defs = thenE_def bindE_def returnE_def modify_def if_proc_def proc_wait_def
  proc_terminate_def proc_kill_def log_def

lemma run_wait_post:
  assumes "well_named s"
  shows "case run_wait w s of (r, s') \<Rightarrow>
           s' = s\<lparr>res := res s', trace := trace s'\<rparr> \<and>
           (\<exists>evs. trace s' = trace s @ evs \<and> list_all (is_cascade_event s) evs) \<and>
           (\<forall>x. r = Inr x \<longrightarrow>
              trace s' = trace s @ normal_cascade s \<and> res s' = x \<and>
              x = (if proc_composer s \<noteq> None then exit_code w Composer else res s)) \<and>
           (\<forall>e. r = Inl e \<longrightarrow> e = KeyboardInterrupt \<and>
              (\<not> interrupt w 319 \<and> \<not> interrupt w 324 \<longrightarrow>
                 s' = s \<and> interrupt w 314 \<and> proc_composer s \<noteq> None)) \<and>
           (proc_composer s = None \<longrightarrow> res s' = res s) \<and>
           (interrupt w 314 \<and> proc_composer s \<noteq> None \<longrightarrow>
              r = Inl KeyboardInterrupt \<and> s' = s)"
  using assms
  by (cases "proc_worker s"; cases "proc_dnf_json s"; cases "proc_composer s")
     (simp_all add: run_wait_def wait_defs normal_cascade_def well_named_def is_cascade_event_def
       has_child_def)

lemma run_wait_no_kill:
  "\<exists>evs. trace (snd (run_wait w s)) = trace s @ evs \<and> (\<forall>h. EvKill h \<notin> set evs)"
  by (cases "proc_worker s"; cases "proc_dnf_json s"; cases "proc_composer s")
     (simp_all add: run_wait_def wait_defs)

lemma on_keyboard_interrupt_no_kill:
  "\<exists>evs. trace (snd (on_keyboard_interrupt w s)) = trace s @ evs \<and> (\<forall>h. EvKill h \<notin> set evs)"
  by (cases "proc_worker s"; cases "proc_dnf_json s"; cases "proc_composer s")
     (simp_all add: on_keyboard_interrupt_def wait_defs)

lemma on_keyboard_interrupt_post:
  assumes "well_named s"
  shows "case on_keyboard_interrupt w s of (r, s') \<Rightarrow>
           s' = s\<lparr>res := res s', trace := trace s'\<rparr> \<and>
           (\<exists>evs. trace s' = trace s @ evs \<and> list_all (is_cascade_event s) evs) \<and>
           (r = Inr () \<longrightarrow>
              trace s' = trace s @ interrupt_cascade s \<and>
              res s' = (if proc_composer s \<noteq> None then exit_code w Composer else res s)) \<and>
           (\<forall>e. r = Inl e \<longrightarrow> e = KeyboardInterrupt)"
  using assms
  by (cases "proc_worker s"; cases "proc_dnf_json s"; cases "proc_composer s")
     (simp_all add: on_keyboard_interrupt_def wait_defs interrupt_cascade_def well_named_def
       is_cascade_event_def has_child_def)

lemma on_keyboard_interrupt_returns:
  assumes "\<not> interrupt w 330" "\<not> interrupt w 333" "\<not> interrupt w 336"
  shows "fst (on_keyboard_interrupt w s) = Inr ()"
  using assms
  by (cases "proc_worker s"; cases "proc_dnf_json s"; cases "proc_composer s")
     (simp_all add: on_keyboard_interrupt_def wait_defs)

lemma run_wait_returns:
  assumes "\<not> interrupt w 314" "\<not> interrupt w 319" "\<not> interrupt w 324"
  shows "\<exists>x. fst (run_wait w s) = Inr x"
  using assms
  by (cases "proc_worker s"; cases "proc_dnf_json s"; cases "proc_composer s")
     (simp_all add: run_wait_def wait_defs)

lemma on_exception_eq:
  assumes "well_named s"
  shows "on_exception s = (Inr (), s\<lparr>trace := trace s @ kill_cascade s\<rparr>)"
  using assms
  by (cases "proc_worker s"; cases "proc_dnf_json s"; cases "proc_composer s")
     (simp_all add: on_exception_def wait_defs kill_cascade_def well_named_def)

section \<open>The exits of \<open>run\<close>\<close>

lemma run_spawn_postD:
  assumes "run_spawn w a socks s = (r, s')"
    and "proc_worker s = None" "proc_dnf_json s = None" "proc_composer s = None"
  shows "proc_events (trace s') = proc_events (trace s) @ spawn_events s'"
    and "proc_worker s' = None \<or>
              builtin_worker a \<and> proc_worker s' = Some (worker_child w (environ s))"
    and "proc_dnf_json s' = None \<or>
              dnf_json a \<and> proc_dnf_json s' =
                Some (dnf_json_child w (lowest_free (open_fds s)) (environ s))"
    and "proc_composer s' = None \<or>
              primary_enabled a \<and> r = Inr () \<and>
              proc_composer s' = Some (composer_child w socks (environ s))"
    and "r = Inr () \<longrightarrow> spawn_events s' = planned_spawns a"
    and "prefix (spawn_events s') (planned_spawns a)"
    and "r = Inr () \<or> r = Inl OSError \<or> r = Inl OverflowError \<or> r = Inl KeyboardInterrupt"
    and "open_fds s' = open_fds s \<and> exitstack s' = exitstack s \<and>
              created (trace s') = created (trace s) \<or>
            open_fds s' = lowest_free (open_fds s) # open_fds s \<and>
              exitstack s' = lowest_free (open_fds s) # exitstack s \<and>
              created (trace s') = created (trace s) @ [lowest_free (open_fds s)]"
    and "closed (trace s') = closed (trace s)" and "res s' = res s"
    and "environ s' ''LISTEN_FDS'' = environ s ''LISTEN_FDS''"
    and "environ s' ''LISTEN_FDNAMES'' = environ s ''LISTEN_FDNAMES''"
    and "environ s' ''LISTEN_PID'' = environ s ''LISTEN_PID''"
  using run_spawn_post [OF assms(2-4), where w = w and a = a and socks = socks] assms(1)
  by simp_all

lemma well_named_spawned:
  assumes "run_spawn w a socks s = (r, s')"
    and "proc_worker s = None" "proc_dnf_json s = None" "proc_composer s = None"
  shows "well_named s'"
  using run_spawn_postD(2-4) [OF assms]
  by (auto simp: well_named_def worker_child_def dnf_json_child_def composer_child_def)

lemma run_init_boot: "run_init (boot fds env) = (Inr (), boot fds env)"
  by (simp add: run_init_def modify_def boot_def)

lemma run_boot:
  "run w a (boot fds env) =
     bindE (prepare_sockets w a) (\<lambda>socks.
       try_except (thenE (run_spawn w a socks) (run_wait w))
         (\<lambda>e. if e = KeyboardInterrupt
              then thenE (on_keyboard_interrupt w) (\<lambda>s. (Inr (res s), s))
              else thenE on_exception (raiseE e))) (boot fds env)"
  by (simp add: run_def thenE_def bindE_def run_init_boot)

lemma prepare_sockets_boot:
  assumes "prepare_sockets w a (boot fds env) = (Inr socks, s1)"
  shows "proc_worker s1 = None" "proc_dnf_json s1 = None" "proc_composer s1 = None"
    "res s1 = 0" "proc_events (trace s1) = []" 
    "trace s1 = map EvSocket socks" "exitstack s1 = rev socks" "open_fds s1 = rev socks @ fds"
    "environ s1 ''LISTEN_FDS'' = Some (str (length (enabled_socket_names a)))"
    "environ s1 ''LISTEN_FDNAMES'' = Some (join '':'' (enabled_socket_names a))"
    "socks = [3 ..< 3 + length (enabled_socket_names a)]"
  using prepare_sockets_ok [OF assms]
  by (simp_all add: boot_def proc_events_def is_proc_event_def filter_empty_conv)

lemma run_cases [consumes 1,
    case_names prepare_failed spawn_failed waited interrupted start_interrupted]:
  assumes "run w a (boot fds env) = (r, s')"
  obtains e where "prepare_sockets w a (boot fds env) = (Inl e, s')" "r = Inl e"
  | socks s1 e s2 where "prepare_sockets w a (boot fds env) = (Inr socks, s1)"
      "run_spawn w a socks s1 = (Inl e, s2)"
      "s' = s2\<lparr>trace := trace s2 @ kill_cascade s2\<rparr>" "r = Inl e" "e \<noteq> KeyboardInterrupt"
  | socks s1 s2 x where "prepare_sockets w a (boot fds env) = (Inr socks, s1)"
      "run_spawn w a socks s1 = (Inr (), s2)" "run_wait w s2 = (Inr x, s')" "r = Inr x"
  | socks s1 s2 s3 r4 where "prepare_sockets w a (boot fds env) = (Inr socks, s1)"
      "run_spawn w a socks s1 = (Inr (), s2)" "run_wait w s2 = (Inl KeyboardInterrupt, s3)"
      "on_keyboard_interrupt w s3 = (r4, s')"
      "r = (case r4 of Inl e \<Rightarrow> Inl e | Inr u \<Rightarrow> Inr (res s'))"
  | socks s1 s2 r4 where "prepare_sockets w a (boot fds env) = (Inr socks, s1)"
      "run_spawn w a socks s1 = (Inl KeyboardInterrupt, s2)"
      "on_keyboard_interrupt w s2 = (r4, s')"
      "r = (case r4 of Inl e \<Rightarrow> Inl e | Inr u \<Rightarrow> Inr (res s'))"
proof -
  from assms [unfolded run_boot] show thesis
  proof (cases rule: bindE_cases)
    case (raised e)
    then show ?thesis by (rule that(1))
  next
    case (returned socks s1)
    note prep = returned(1)
    note none = prepare_sockets_boot(1-3) [OF prep]
    from returned(2) show ?thesis
    proof (cases rule: try_except_cases)
      case (returned x)
      from returned(1) [unfolded thenE_def] show ?thesis
      proof (cases rule: bindE_cases)
        case (raised e) then show ?thesis by simp
      next
        case (returned u s2)
        with prep \<open>r = Inr x\<close> show ?thesis by (intro that(3) [of socks s1 s2 x]) simp_all
      qed
    next
      case (handled e s2')
      from handled(1) [unfolded thenE_def] show ?thesis
      proof (cases rule: bindE_cases)
        case (raised e')
        then have sp: "run_spawn w a socks s1 = (Inl e, s2')" by simp
        have wn: "well_named s2'" using sp none by (rule well_named_spawned)
        show ?thesis
        proof (cases "e = KeyboardInterrupt")
          case True
          obtain r4 s4 where h: "on_keyboard_interrupt w s2' = (r4, s4)" by fastforce
          from handled(2) True h
          have "s' = s4" "r = (case r4 of Inl e \<Rightarrow> Inl e | Inr u \<Rightarrow> Inr (res s'))"
            by (auto simp: thenE_def bindE_def split: sum.splits)
          with prep sp True h show ?thesis by (intro that(5) [of socks s1 s2' r4]) simp_all
        next
          case False
          with handled(2)
          have "r = Inl e" "s' = s2'\<lparr>trace := trace s2' @ kill_cascade s2'\<rparr>"
            by (auto simp: thenE_def bindE_def raiseE_def on_exception_eq [OF wn])
          with prep sp False show ?thesis by (intro that(2) [of socks s1 e s2']) simp_all
        qed
      next
        case (returned u s2)
        then have sp: "run_spawn w a socks s1 = (Inr (), s2)" by simp
        have wn: "well_named s2" using sp none by (rule well_named_spawned)
        from run_wait_post [OF wn, of w] returned(2) have e: "e = KeyboardInterrupt" by simp
        obtain r4 s4 where h: "on_keyboard_interrupt w s2' = (r4, s4)" by fastforce
        from handled(2) e h have "s' = s4" "r = (case r4 of Inl e \<Rightarrow> Inl e | Inr u \<Rightarrow> Inr (res s'))"
          by (auto simp: thenE_def bindE_def split: sum.splits)
        with prep sp returned(2) e h show ?thesis
          by (intro that(4) [of socks s1 s2 s2' r4]) simp_all
      qed
    qed
  qed
qed

lemma run_wait_postD:
  assumes "well_named s" and "run_wait w s = (r, s')"
  shows "s' = s\<lparr>res := res s', trace := trace s'\<rparr>"
    and "\<exists>evs. trace s' = trace s @ evs \<and> list_all (is_cascade_event s) evs"
    and "r = Inr x \<Longrightarrow> trace s' = trace s @ normal_cascade s"
    and "r = Inr x \<Longrightarrow> res s' = x"
    and "r = Inr x \<Longrightarrow> x = (if proc_composer s \<noteq> None then exit_code w Composer else res s)"
    and "r = Inl e \<Longrightarrow> e = KeyboardInterrupt"
    and "r = Inl e \<Longrightarrow> \<not> interrupt w 319 \<Longrightarrow> \<not> interrupt w 324 \<Longrightarrow>
           s' = s \<and> interrupt w 314 \<and> proc_composer s \<noteq> None"
    and "proc_composer s = None \<Longrightarrow> res s' = res s"
    and "interrupt w 314 \<Longrightarrow> proc_composer s \<noteq> None \<Longrightarrow> r = Inl KeyboardInterrupt \<and> s' = s"
proof -
  note p = run_wait_post [OF assms(1), of w, unfolded assms(2) prod.case]
  show "s' = s\<lparr>res := res s', trace := trace s'\<rparr>" using p by (elim conjE)
  show "\<exists>evs. trace s' = trace s @ evs \<and> list_all (is_cascade_event s) evs"
    using p by (elim conjE)
  show "r = Inr x \<Longrightarrow> trace s' = trace s @ normal_cascade s" using p by (elim conjE) blast
  show "r = Inr x \<Longrightarrow> res s' = x" using p by (elim conjE) blast
  show "r = Inr x \<Longrightarrow> x = (if proc_composer s \<noteq> None then exit_code w Composer else res s)"
    using p by (elim conjE) blast
  show "r = Inl e \<Longrightarrow> e = KeyboardInterrupt" using p by (elim conjE) blast
  show "r = Inl e \<Longrightarrow> \<not> interrupt w 319 \<Longrightarrow> \<not> interrupt w 324 \<Longrightarrow>
           s' = s \<and> interrupt w 314 \<and> proc_composer s \<noteq> None" using p by (elim conjE) blast
  show "proc_composer s = None \<Longrightarrow> res s' = res s" using p by (elim conjE) blast
  show "interrupt w 314 \<Longrightarrow> proc_composer s \<noteq> None \<Longrightarrow> r = Inl KeyboardInterrupt \<and> s' = s"
    using p by (elim conjE) blast
qed

lemma on_keyboard_interrupt_postD:
  assumes "well_named s" and "on_keyboard_interrupt w s = (r, s')"
  shows "s' = s\<lparr>res := res s', trace := trace s'\<rparr>"
    and "\<exists>evs. trace s' = trace s @ evs \<and> list_all (is_cascade_event s) evs"
    and "r = Inr () \<Longrightarrow> trace s' = trace s @ interrupt_cascade s"
    and "r = Inr () \<Longrightarrow>
           res s' = (if proc_composer s \<noteq> None then exit_code w Composer else res s)"
    and "r = Inl e \<Longrightarrow> e = KeyboardInterrupt"
proof -
  note p = on_keyboard_interrupt_post [OF assms(1), of w, unfolded assms(2) prod.case]
  show "s' = s\<lparr>res := res s', trace := trace s'\<rparr>" using p by (elim conjE)
  show "\<exists>evs. trace s' = trace s @ evs \<and> list_all (is_cascade_event s) evs"
    using p by (elim conjE)
  show "r = Inr () \<Longrightarrow> trace s' = trace s @ interrupt_cascade s" using p by (elim conjE) blast
  show "r = Inr () \<Longrightarrow>
           res s' = (if proc_composer s \<noteq> None then exit_code w Composer else res s)"
    using p by (elim conjE) blast
  show "r = Inl e \<Longrightarrow> e = KeyboardInterrupt" using p by (elim conjE) blast
qed


lemma cascade_events:
  assumes "list_all (is_cascade_event s) evs"
  shows "proc_events evs = evs" "created evs = []" "closed evs = []"
  using assms
  by (induction evs; simp add: is_cascade_event_def split: event.splits)+

lemma cascades_are_cascade_events:
  "list_all (is_cascade_event s) (normal_cascade s)"
  "list_all (is_cascade_event s) (interrupt_cascade s)"
  "list_all (is_cascade_event s) (kill_cascade s)"
  by (simp_all add: normal_cascade_def interrupt_cascade_def kill_cascade_def
      is_cascade_event_def has_child_def)

lemma same_procs:
  assumes "s' = s\<lparr>res := x, trace := tr\<rparr>"
  shows "spawn_events s' = spawn_events s" "normal_cascade s' = normal_cascade s"
    "interrupt_cascade s' = interrupt_cascade s" "kill_cascade s' = kill_cascade s"
    "well_named s' = well_named s" "is_cascade_event s' = is_cascade_event s"
    "proc_worker s' = proc_worker s" "proc_dnf_json s' = proc_dnf_json s"
    "proc_composer s' = proc_composer s"
  using assms
  by (simp_all add: spawn_events_def normal_cascade_def interrupt_cascade_def kill_cascade_def
      well_named_def is_cascade_event_def [abs_def] has_child_def [abs_def])

lemma block_no_interrupt:
  assumes b: "\<And>s r s'. m s = (r, s') \<Longrightarrow> block_outcome flag nm l s r s'"
  shows "triple (\<lambda>s. True) m (\<lambda>l' s. True) (\<lambda>e s. e \<noteq> KeyboardInterrupt)"
proof (rule tripleI)
  fix s e s' assume "m s = (Inl e, s')"
  from b [OF this] show "e \<noteq> KeyboardInterrupt"
    by (auto simp: block_outcome_def split: if_splits)
qed simp

lemma prepare_sockets_no_interrupt:
  assumes "prepare_sockets w a s = (Inl e, s')"
  shows "e \<noteq> KeyboardInterrupt"
proof -
  have tail: "\<And>l4. triple (\<lambda>s. True)
      (thenE (environ_set ''LISTEN_FDS'' (str (length (sockets l4))))
      (thenE (environ_set ''LISTEN_FDNAMES'' (join '':'' (names l4)))
      (returnE (sockets l4)))) (\<lambda>socks s. True) (\<lambda>e s. e \<noteq> KeyboardInterrupt)"
    by (simp add: triple_def thenE_def bindE_def environ_set_def returnE_def)
  have "triple (\<lambda>s. True) (prepare_sockets w a) (\<lambda>socks s. True) (\<lambda>e s. e \<noteq> KeyboardInterrupt)"
    unfolding prepare_sockets_def
    by (intro triple_bindE [where Q = "\<lambda>l' s. True"] tail
        block_no_interrupt [OF block_weldr] block_no_interrupt [OF block_composer_api]
        block_no_interrupt [OF block_local_worker] block_no_interrupt [OF block_remote_worker])
  from tripleD_Inl [OF this _ assms] show ?thesis by simp
qed


text \<open>What \<open>run\<close> does to the children, exit by exit.\<close>

lemma run_exits [consumes 1,
    case_names prepare_failed spawn_failed waited interrupted start_interrupted]:
  assumes run: "run w a (boot fds env) = (r, s')"
  obtains e where "r = Inl e" "e \<noteq> KeyboardInterrupt" "proc_events (trace s') = []"
      "proc_worker s' = None" "proc_dnf_json s' = None" "proc_composer s' = None"
      "prepare_sockets w a (boot fds env) = (Inl e, s')"
  | e socks s1 s2 where "r = Inl e" "e \<noteq> KeyboardInterrupt" "well_named s'"
      "proc_composer s' = None"
      "prefix (spawn_events s') (planned_spawns a)"
      "proc_events (trace s') = spawn_events s' @ kill_cascade s'"
      "prepare_sockets w a (boot fds env) = (Inr socks, s1)"
      "run_spawn w a socks s1 = (Inl e, s2)"
  | x socks s1 s2 where "r = Inr x" "well_named s'" "spawn_events s' = planned_spawns a"
      "proc_events (trace s') = spawn_events s' @ normal_cascade s'"
      "x = (if proc_composer s' \<noteq> None then exit_code w Composer else 0)"
      "\<not> (interrupt w 314 \<and> proc_composer s' \<noteq> None)"
      "prepare_sockets w a (boot fds env) = (Inr socks, s1)"
      "run_spawn w a socks s1 = (Inr (), s2)" "run_wait w s2 = (Inr x, s')"
  | evs3 evs4 and r4 :: "exc + unit" and socks s1 s2 s3 where
      "well_named s'" "spawn_events s' = planned_spawns a"
      "proc_events (trace s') = spawn_events s' @ evs3 @ evs4"
      "list_all (is_cascade_event s') evs3" "list_all (is_cascade_event s') evs4"
      "interrupt w 314 \<and> proc_composer s' \<noteq> None \<or> interrupt w 319 \<or> interrupt w 324"
      "interrupt w 314 \<and> proc_composer s' \<noteq> None \<longrightarrow> evs3 = []"
      "r4 = Inr () \<longrightarrow> evs4 = interrupt_cascade s' \<and>
         r = Inr (if proc_composer s' \<noteq> None then exit_code w Composer else 0)"
      "r4 \<noteq> Inr () \<longrightarrow> r = Inl KeyboardInterrupt"
      "prepare_sockets w a (boot fds env) = (Inr socks, s1)"
      "run_spawn w a socks s1 = (Inr (), s2)" "run_wait w s2 = (Inl KeyboardInterrupt, s3)"
      "on_keyboard_interrupt w s3 = (r4, s')"
      "\<forall>h. EvKill h \<notin> set evs3 \<and> EvKill h \<notin> set evs4"
  | evs4 and r4 :: "exc + unit" and socks s1 s2 where
      "well_named s'" "proc_composer s' = None" "prefix (spawn_events s') (planned_spawns a)"
      "proc_events (trace s') = spawn_events s' @ evs4"
      "list_all (is_cascade_event s') evs4"
      "builtin_worker a \<and> interrupt w 226 \<and> proc_worker s' = None \<and> proc_dnf_json s' = None \<or>
       dnf_json a \<and> interrupt w 285 \<and> proc_dnf_json s' = None \<or>
       primary_enabled a \<and> interrupt w 254"
      "r4 = Inr () \<longrightarrow> evs4 = interrupt_cascade s' \<and> r = Inr 0"
      "r4 \<noteq> Inr () \<longrightarrow> r = Inl KeyboardInterrupt"
      "prepare_sockets w a (boot fds env) = (Inr socks, s1)"
      "run_spawn w a socks s1 = (Inl KeyboardInterrupt, s2)"
      "on_keyboard_interrupt w s2 = (r4, s')"
      "\<forall>h. EvKill h \<notin> set evs4"
  using run
proof (cases rule: run_cases)
  case (prepare_failed e)
  note f = prepare_sockets_boot_failed [OF prepare_failed(1)]
  have "e \<noteq> KeyboardInterrupt"
    using prepare_failed(1) by (rule prepare_sockets_no_interrupt)
  with prepare_failed(2) f prepare_failed(1) show ?thesis by (intro that(1) [of e])
next
  case (spawn_failed socks s1 e s2)
  note b = prepare_sockets_boot [OF spawn_failed(1)]
  note p = run_spawn_postD [OF spawn_failed(2) b(1-3)]
  note wn = well_named_spawned [OF spawn_failed(2) b(1-3)]
  have s': "s' = s2\<lparr>res := res s2, trace := trace s2 @ kill_cascade s2\<rparr>"
    using spawn_failed(3) by simp
  note sp = same_procs [OF s']
  have tr: "trace s' = trace s2 @ kill_cascade s2" using spawn_failed(3) by simp
  have ev: "proc_events (trace s') = spawn_events s' @ kill_cascade s'"
    unfolding tr sp proc_events_append p(1) b(5)
      cascade_events(1) [OF cascades_are_cascade_events(3)] by simp
  note ne = spawn_failed(5)
  have c: "proc_composer s' = None" using p(4) unfolding sp by simp
  have pf: "prefix (spawn_events s') (planned_spawns a)" using p(6) unfolding sp .
  have wn': "well_named s'" using wn unfolding sp .
  from spawn_failed(4) ne wn' c pf ev spawn_failed(1,2) show ?thesis by (rule that(2))
next
  case (waited socks s1 s2 x)
  note b = prepare_sockets_boot [OF waited(1)]
  note p = run_spawn_postD [OF waited(2) b(1-3)]
  note wn = well_named_spawned [OF waited(2) b(1-3)]
  note q = run_wait_postD [OF wn waited(3)]
  note sp = same_procs [OF q(1)]
  have ev: "proc_events (trace s') = spawn_events s' @ normal_cascade s'"
    unfolding q(3) [OF refl] sp proc_events_append p(1) b(5)
      cascade_events(1) [OF cascades_are_cascade_events(1)] by simp
  have x: "x = (if proc_composer s' \<noteq> None then exit_code w Composer else 0)"
    using q(5) [OF refl] p(10) b(4) unfolding sp by simp
  have i: "\<not> (interrupt w 314 \<and> proc_composer s' \<noteq> None)"
  proof
    assume "interrupt w 314 \<and> proc_composer s' \<noteq> None"
    then have "interrupt w 314" "proc_composer s2 \<noteq> None" unfolding sp by simp_all
    from q(9) [OF this] show False by simp
  qed
  have pl: "spawn_events s' = planned_spawns a" using p(5) unfolding sp by simp
  have wn': "well_named s'" using wn unfolding sp .
  from waited(4) wn' pl ev x i waited(1,2,3) show ?thesis by (rule that(3))
next
  case (interrupted socks s1 s2 s3 r4)
  note b = prepare_sockets_boot [OF interrupted(1)]
  note p = run_spawn_postD [OF interrupted(2) b(1-3)]
  note wn = well_named_spawned [OF interrupted(2) b(1-3)]
  note q = run_wait_postD [OF wn interrupted(3)]
  note sp3 = same_procs [OF q(1)]
  have wn3: "well_named s3" using wn unfolding sp3 .
  note h = on_keyboard_interrupt_postD [OF wn3 interrupted(4)]
  note sp = same_procs [OF h(1)]
  from q(2) obtain evs3 where
    e3': "trace s3 = trace s2 @ evs3" "list_all (is_cascade_event s2) evs3"
    by blast
  from h(2) obtain evs4 where
    e4': "trace s' = trace s3 @ evs4" "list_all (is_cascade_event s3) evs4"
    by blast
  have e3: "trace s3 = trace s2 @ evs3" "list_all (is_cascade_event s') evs3"
    using e3' unfolding sp sp3 by simp_all
  have e4: "trace s' = trace s3 @ evs4" "list_all (is_cascade_event s') evs4"
    using e4' unfolding sp by simp_all
  have wn': "well_named s'" using wn3 unfolding sp .
  have pl: "spawn_events s' = planned_spawns a" using p(5) unfolding sp sp3 by simp
  have ev: "proc_events (trace s') = spawn_events s' @ evs3 @ evs4"
    unfolding e4(1) e3(1) sp sp3 proc_events_append p(1) b(5)
      cascade_events(1) [OF e3(2)] cascade_events(1) [OF e4(2)] by simp
  have i: "interrupt w 314 \<and> proc_composer s' \<noteq> None \<or> interrupt w 319 \<or> interrupt w 324"
    using q(7) [OF refl] unfolding sp sp3 by blast
  have z: "interrupt w 314 \<and> proc_composer s' \<noteq> None \<longrightarrow> evs3 = []"
  proof
    assume "interrupt w 314 \<and> proc_composer s' \<noteq> None"
    then have "interrupt w 314" "proc_composer s2 \<noteq> None" unfolding sp sp3 by simp_all
    from q(9) [OF this] have "s3 = s2" by simp
    with e3(1) show "evs3 = []" by simp
  qed
  have res3: "proc_composer s' = None \<longrightarrow> res s3 = 0"
    using q(8) p(10) b(4) unfolding sp sp3 by simp
  have ok: "r4 = Inr () \<longrightarrow> evs4 = interrupt_cascade s' \<and>
         r = Inr (if proc_composer s' \<noteq> None then exit_code w Composer else 0)"
  proof
    assume r4: "r4 = Inr ()"
    from h(3) [OF r4] e4(1) have "evs4 = interrupt_cascade s3" by simp
    moreover have "r = Inr (res s')" using interrupted(5) r4 by simp
    moreover note h(4) [OF r4] res3
    ultimately show "evs4 = interrupt_cascade s' \<and>
         r = Inr (if proc_composer s' \<noteq> None then exit_code w Composer else 0)"
      unfolding sp by simp
  qed
  have ki: "r4 \<noteq> Inr () \<longrightarrow> r = Inl KeyboardInterrupt"
  proof
    assume "r4 \<noteq> Inr ()"
    then obtain e where e: "r4 = Inl e" by (cases r4) auto
    from h(5) [OF e] interrupted(5) e show "r = Inl KeyboardInterrupt" by simp
  qed
  have nk: "\<forall>h. EvKill h \<notin> set evs3 \<and> EvKill h \<notin> set evs4"
    using run_wait_no_kill [of w s2] on_keyboard_interrupt_no_kill [of w s3]
    unfolding interrupted(3,4) by (simp add: e3(1) e4(1))
  from wn' pl ev e3(2) e4(2) i z ok ki interrupted(1,2,3,4) nk show ?thesis by (rule that(4))
next
  case (start_interrupted socks s1 s2 r4)
  note b = prepare_sockets_boot [OF start_interrupted(1)]
  note p = run_spawn_postD [OF start_interrupted(2) b(1-3)]
  note wn = well_named_spawned [OF start_interrupted(2) b(1-3)]
  note h = on_keyboard_interrupt_postD [OF wn start_interrupted(3)]
  note sp = same_procs [OF h(1)]
  from h(2) obtain evs4 where
    e4': "trace s' = trace s2 @ evs4" "list_all (is_cascade_event s2) evs4"
    by blast
  have e4: "trace s' = trace s2 @ evs4" "list_all (is_cascade_event s') evs4"
    using e4' unfolding sp by simp_all
  have wn': "well_named s'" using wn unfolding sp .
  have c: "proc_composer s' = None" using p(4) unfolding sp by simp
  have pf: "prefix (spawn_events s') (planned_spawns a)" using p(6) unfolding sp .
  have ev: "proc_events (trace s') = spawn_events s' @ evs4"
    unfolding e4(1) sp proc_events_append p(1) b(5) cascade_events(1) [OF e4(2)] by simp
  have i: "builtin_worker a \<and> interrupt w 226 \<and> proc_worker s' = None \<and> proc_dnf_json s' = None \<or>
       dnf_json a \<and> interrupt w 285 \<and> proc_dnf_json s' = None \<or>
       primary_enabled a \<and> interrupt w 254"
    using run_spawn_interrupted [OF b(1-3), where w = w and a = a and socks = socks]
      start_interrupted(2)
    unfolding sp by simp
  have ok: "r4 = Inr () \<longrightarrow> evs4 = interrupt_cascade s' \<and> r = Inr 0"
  proof
    assume r4: "r4 = Inr ()"
    from h(3) [OF r4] e4(1) have "evs4 = interrupt_cascade s2" by simp
    moreover have "r = Inr (res s')" using start_interrupted(4) r4 by simp
    moreover have "res s' = 0" using h(4) [OF r4] p(4,10) b(4) by auto
    ultimately show "evs4 = interrupt_cascade s' \<and> r = Inr 0" unfolding sp by simp
  qed
  have ki: "r4 \<noteq> Inr () \<longrightarrow> r = Inl KeyboardInterrupt"
  proof
    assume "r4 \<noteq> Inr ()"
    then obtain e where e: "r4 = Inl e" by (cases r4) auto
    from h(5) [OF e] start_interrupted(4) e show "r = Inl KeyboardInterrupt" by simp
  qed
  have nk: "\<forall>h. EvKill h \<notin> set evs4"
    using on_keyboard_interrupt_no_kill [of w s2]
    unfolding start_interrupted(3) by (simp add: e4(1))
  from wn' c pf ev e4(2) i ok ki start_interrupted(1,2,3) nk show ?thesis by (rule that(5))
qed

section \<open>Children started and children held\<close>

lemma mem_proc_events: "e \<in> set (proc_events tr) \<longleftrightarrow> e \<in> set tr \<and> is_proc_event e"
  by (simp add: proc_events_def)

lemma count_proc_events: "is_proc_event e \<Longrightarrow> count_list (proc_events tr) e = count_list tr e"
  by (induction tr) (auto simp: proc_events_def)

lemma is_proc_event_simps [simp]:
  "is_proc_event (EvSpawn n)" "is_proc_event (EvWait n)" "is_proc_event (EvTerminate n)"
  "is_proc_event (EvKill n)" "\<not> is_proc_event (EvSocket fd)" "\<not> is_proc_event (EvClose fd)"
  by (simp_all add: is_proc_event_def)

lemma spawned_proc_events: "spawned (proc_events tr) = spawned tr"
  by (induction tr) (auto simp: spawned_def proc_events_def is_proc_event_def split: event.splits)

lemma spawned_append: "spawned (xs @ ys) = spawned xs @ spawned ys"
  by (simp add: spawned_def)

lemma spawned_spawn_events: "spawned (spawn_events s) = spawn_events s"
  by (simp add: spawned_def spawn_events_def)

lemma spawned_cascade: "list_all (is_cascade_event s) evs \<Longrightarrow> spawned evs = []"
  by (induction evs) (auto simp: spawned_def is_cascade_event_def split: event.splits)

lemma spawn_events_planned:
  assumes "spawn_events s = planned_spawns a"
  shows "(proc_worker s \<noteq> None) = builtin_worker a" "(proc_dnf_json s \<noteq> None) = dnf_json a"
    "(proc_composer s \<noteq> None) = primary_enabled a"
  using assms by (auto simp: spawn_events_def planned_spawns_def split: if_splits)

lemma mem_spawn_events: "EvSpawn h \<in> set (spawn_events s) \<longleftrightarrow> has_child s h"
  by (cases h) (simp_all add: spawn_events_def has_child_def)

lemma not_spawn_cascade: "list_all (is_cascade_event s) evs \<Longrightarrow> EvSpawn h \<notin> set evs"
  by (induction evs) (auto simp: is_cascade_event_def split: event.splits)

text \<open>In every run, the children started are the children the variables of \<open>run\<close> hold.\<close>

lemma run_spawned:
  assumes "run w a (boot fds env) = (r, s')"
  shows "spawned (trace s') = spawn_events s'"
    and "EvSpawn h \<in> set (trace s') \<longleftrightarrow> has_child s' h"
proof -
  have "\<exists>evs. proc_events (trace s') = spawn_events s' @ evs \<and> list_all (is_cascade_event s') evs"
    using assms
  proof (cases rule: run_exits)
    case (prepare_failed e)
    then show ?thesis by (simp add: spawn_events_def)
  next
    case (spawn_failed e)
    with cascades_are_cascade_events(3) [of s'] show ?thesis by blast
  next
    case (waited x)
    with cascades_are_cascade_events(1) [of s'] show ?thesis by blast
  next
    case (interrupted evs3 evs4 r4)
    from interrupted(4,5) have "list_all (is_cascade_event s') (evs3 @ evs4)" by simp
    with interrupted(3) show ?thesis by blast
  next
    case (start_interrupted evs4 r4)
    then show ?thesis by blast
  qed
  then obtain evs where
    ev: "proc_events (trace s') = spawn_events s' @ evs" "list_all (is_cascade_event s') evs"
    by blast
  have "spawned (trace s') = spawned (proc_events (trace s'))" by (simp add: spawned_proc_events)
  also have "\<dots> = spawn_events s'"
    unfolding ev(1) spawned_append spawned_spawn_events spawned_cascade [OF ev(2)] by simp
  finally show "spawned (trace s') = spawn_events s'" .
  have "EvSpawn h \<in> set (trace s') \<longleftrightarrow> EvSpawn h \<in> set (proc_events (trace s'))"
    by (simp add: mem_proc_events)
  also have "\<dots> \<longleftrightarrow> has_child s' h"
    unfolding ev(1) using not_spawn_cascade [OF ev(2), of h] by (simp add: mem_spawn_events)
  finally show "EvSpawn h \<in> set (trace s') \<longleftrightarrow> has_child s' h" .
qed


lemma on_exception_returns: "fst (on_exception s) = Inr ()"
  by (cases "proc_worker s"; cases "proc_dnf_json s"; cases "proc_composer s")
     (simp_all add: on_exception_def wait_defs)

text \<open>The children that the variables of \<open>run\<close> hold at the end of a run.\<close>

lemma run_children:
  assumes "run w a (boot fds env) = (r, s')"
  defines "n \<equiv> length (enabled_socket_names a)"
  defines "env1 \<equiv> env(''LISTEN_FDS'' \<mapsto> str n,
                        ''LISTEN_FDNAMES'' \<mapsto> join '':'' (enabled_socket_names a))"
  shows "proc_worker s' = None \<or> proc_worker s' = Some (worker_child w env1)"
    and "proc_dnf_json s' = None \<or>
         proc_dnf_json s' = Some (dnf_json_child w (lowest_free (rev [3 ..< 3 + n] @ fds)) env1)"
    and "proc_composer s' = None \<or> proc_composer s' = Some (composer_child w [3 ..< 3 + n] env1)"
    and "environ s' ''LISTEN_PID'' = env ''LISTEN_PID''"
proof -
  have "(proc_worker s' = None \<or> proc_worker s' = Some (worker_child w env1)) \<and>
    (proc_dnf_json s' = None \<or>
       proc_dnf_json s' = Some (dnf_json_child w (lowest_free (rev [3 ..< 3 + n] @ fds)) env1)) \<and>
    (proc_composer s' = None \<or> proc_composer s' = Some (composer_child w [3 ..< 3 + n] env1)) \<and>
    environ s' ''LISTEN_PID'' = env ''LISTEN_PID''"
  using assms(1)
  proof (cases rule: run_cases)
    case (prepare_failed e)
    let ?I = "\<lambda>s. environ s ''LISTEN_PID'' = env ''LISTEN_PID''"
    have "triple ?I (prepare_sockets w a) (\<lambda>socks. ?I) (\<lambda>e. ?I)"
      by (rule prepare_sockets_inv) (auto simp: opened_def)
    moreover have "?I (boot fds env)" by (simp add: boot_def)
    ultimately have "?I s'" using prepare_failed(1) by (rule tripleD_Inl)
    with prepare_sockets_boot_failed [OF prepare_failed(1)] show ?thesis by simp
  next
    case (spawn_failed socks s1 e s2)
    note b = prepare_sockets_boot [OF spawn_failed(1)]
    note p = run_spawn_postD [OF spawn_failed(2) b(1-3)]
    have e1: "environ s1 = env1" "open_fds s1 = rev [3 ..< 3 + n] @ fds" "socks = [3 ..< 3 + n]"
      using prepare_sockets_ok [OF spawn_failed(1)] b(8)
      by (simp_all add: env1_def n_def boot_def)
    have "environ s1 ''LISTEN_PID'' = env ''LISTEN_PID''" by (simp add: e1(1) env1_def)
    with p(2,3,4,13) show ?thesis unfolding e1 spawn_failed(3) by auto
  next
    case (waited socks s1 s2 x)
    note b = prepare_sockets_boot [OF waited(1)]
    note p = run_spawn_postD [OF waited(2) b(1-3)]
    note wn = well_named_spawned [OF waited(2) b(1-3)]
    note q = run_wait_postD(1) [OF wn waited(3)]
    note sp = same_procs [OF q]
    have e1: "environ s1 = env1" "open_fds s1 = rev [3 ..< 3 + n] @ fds" "socks = [3 ..< 3 + n]"
      using prepare_sockets_ok [OF waited(1)] b(8)
      by (simp_all add: env1_def n_def boot_def)
    have "environ s1 ''LISTEN_PID'' = env ''LISTEN_PID''" by (simp add: e1(1) env1_def)
    moreover have "environ s' = environ s2" by (subst q) simp
    ultimately show ?thesis using p(2,3,4,13) unfolding e1 sp by auto
  next
    case (interrupted socks s1 s2 s3 r4)
    note b = prepare_sockets_boot [OF interrupted(1)]
    note p = run_spawn_postD [OF interrupted(2) b(1-3)]
    note wn = well_named_spawned [OF interrupted(2) b(1-3)]
    note q = run_wait_postD(1) [OF wn interrupted(3)]
    note sp3 = same_procs [OF q]
    have wn3: "well_named s3" using wn unfolding sp3 .
    note h = on_keyboard_interrupt_postD(1) [OF wn3 interrupted(4)]
    note sp = same_procs [OF h]
    have e1: "environ s1 = env1" "open_fds s1 = rev [3 ..< 3 + n] @ fds" "socks = [3 ..< 3 + n]"
      using prepare_sockets_ok [OF interrupted(1)] b(8)
      by (simp_all add: env1_def n_def boot_def)
    have "environ s1 ''LISTEN_PID'' = env ''LISTEN_PID''" by (simp add: e1(1) env1_def)
    moreover have "environ s3 = environ s2" by (subst q) simp
    moreover have "environ s' = environ s3" by (subst h) simp
    ultimately show ?thesis using p(2,3,4,13) unfolding e1 sp sp3 by auto
  next
    case (start_interrupted socks s1 s2 r4)
    note b = prepare_sockets_boot [OF start_interrupted(1)]
    note p = run_spawn_postD [OF start_interrupted(2) b(1-3)]
    note wn = well_named_spawned [OF start_interrupted(2) b(1-3)]
    note h = on_keyboard_interrupt_postD(1) [OF wn start_interrupted(3)]
    note sp = same_procs [OF h]
    have e1: "environ s1 = env1" "open_fds s1 = rev [3 ..< 3 + n] @ fds" "socks = [3 ..< 3 + n]"
      using prepare_sockets_ok [OF start_interrupted(1)] b(8)
      by (simp_all add: env1_def n_def boot_def)
    have "environ s1 ''LISTEN_PID'' = env ''LISTEN_PID''" by (simp add: e1(1) env1_def)
    moreover have "environ s' = environ s2" by (subst h) simp
    ultimately show ?thesis using p(2,3,4,13) unfolding e1 sp by auto
  qed
  then show "proc_worker s' = None \<or> proc_worker s' = Some (worker_child w env1)"
    and "proc_dnf_json s' = None \<or>
         proc_dnf_json s' = Some (dnf_json_child w (lowest_free (rev [3 ..< 3 + n] @ fds)) env1)"
    and "proc_composer s' = None \<or> proc_composer s' = Some (composer_child w [3 ..< 3 + n] env1)"
    and "environ s' ''LISTEN_PID'' = env ''LISTEN_PID''"
    by simp_all
qed

section \<open>Runs that complete\<close>

lemma shutdown_planned:
  assumes "spawn_events s = planned_spawns a"
  shows "normal_cascade s = normal_shutdown a" "interrupt_cascade s = interrupt_shutdown a"
  using spawn_events_planned [OF assms]
  by (simp_all add: normal_cascade_def normal_shutdown_def interrupt_cascade_def
      interrupt_shutdown_def)

text \<open>
  When no call fails, the ports can be bound to, only the standard streams are open at the
  start and no interrupt arrives, except possibly while \<open>run\<close> waits for the primary server:
  \<open>run\<close> starts every child it is to start and returns.
\<close>

lemma run_returns:
  assumes nf: "\<forall>l. \<not> fault w l" and ni: "\<forall>l. l \<noteq> 314 \<longrightarrow> \<not> interrupt w l"
    and ports: "ports_ok a" and fds: "set fds = {0, 1, 2}"
    and run: "run w a (boot fds env) = (r, s')"
  shows "r = Inr (if primary_enabled a then exit_code w Composer else 0)"
    and "spawn_events s' = planned_spawns a"
    and "proc_events (trace s') = planned_spawns a @
           (if interrupt w 314 \<and> primary_enabled a then interrupt_shutdown a
            else normal_shutdown a)"
proof -
  have prep: "fst (prepare_sockets w a (boot fds env)) =
      Inr [3 ..< 3 + length (enabled_socket_names a)]"
    using nf ports fds by (intro prepare_sockets_returns) (simp_all add: ports_ok_def boot_def)
  have i: "\<not> interrupt w 226" "\<not> interrupt w 254" "\<not> interrupt w 285" "\<not> interrupt w 319"
    "\<not> interrupt w 324" "\<not> interrupt w 330" "\<not> interrupt w 333" "\<not> interrupt w 336"
    using ni by simp_all
  have sp: "fst (run_spawn w a socks s1) = Inr ()" for socks s1
    using nf i(1,2,3) ports by (intro run_spawn_returns) (simp_all add: ports_ok_def)
  have "r = Inr (if primary_enabled a then exit_code w Composer else 0) \<and>
    spawn_events s' = planned_spawns a \<and>
    proc_events (trace s') = planned_spawns a @
           (if interrupt w 314 \<and> primary_enabled a then interrupt_shutdown a
            else normal_shutdown a)"
    using run
  proof (cases rule: run_exits)
    case (prepare_failed e)
    with prep show ?thesis by simp
  next
    case (spawn_failed e socks s1 s2)
    with sp [of socks s1] show ?thesis by simp
  next
    case (waited x socks s1 s2)
    note pl = spawn_events_planned(3) [OF waited(3)]
    from waited(6) pl have "\<not> (interrupt w 314 \<and> primary_enabled a)" by auto
    with waited(1,3,4,5) pl shutdown_planned(1) [OF waited(3)] show ?thesis by auto
  next
    case (interrupted evs3 evs4 r4 socks s1 s2 s3)
    note pl = spawn_events_planned(3) [OF interrupted(2)]
    from interrupted(6) i have c: "interrupt w 314" "proc_composer s' \<noteq> None" by simp_all
    with interrupted(7) have e3: "evs3 = []" by simp
    from on_keyboard_interrupt_returns [OF i(6,7,8), of s3] interrupted(13)
    have "r4 = Inr ()" by simp
    with interrupted(8) c have "evs4 = interrupt_cascade s'" "r = Inr (exit_code w Composer)"
      by simp_all
    with interrupted(2,3) e3 c pl shutdown_planned(2) [OF interrupted(2)] show ?thesis by simp
  next
    case (start_interrupted evs4 r4 socks s1 s2)
    with sp [of socks s1] show ?thesis by simp
  qed
  then show "r = Inr (if primary_enabled a then exit_code w Composer else 0)"
    and "spawn_events s' = planned_spawns a"
    and "proc_events (trace s') = planned_spawns a @
           (if interrupt w 314 \<and> primary_enabled a then interrupt_shutdown a
            else normal_shutdown a)"
    by simp_all
qed

section \<open>Sockets are closed\<close>

lemma sock_inv_boot: "sock_inv fds (boot fds env)"
  by (simp add: sock_inv_def boot_def)

lemma sock_inv_opened:
  assumes "sock_inv fds s"
  shows "sock_inv fds (opened (lowest_free (open_fds s)) s)"
proof -
  from lowest_free_notin [of "open_fds s"] assms
  have "lowest_free (open_fds s) \<notin> set (exitstack s)" "lowest_free (open_fds s) \<notin> set fds"
    by (simp_all add: sock_inv_def)
  with assms show ?thesis by (simp add: sock_inv_def opened_def)
qed

lemma sock_inv_frame:
  assumes "sock_inv fds s" and "s' = s\<lparr>res := x, trace := trace s @ evs\<rparr>"
    and "list_all (is_cascade_event s0) evs"
  shows "sock_inv fds s'"
  using assms(1) cascade_events(2,3) [OF assms(3)] unfolding assms(2)
  by (simp add: sock_inv_def)

lemma run_sock_inv:
  assumes "run w a (boot fds env) = (r, s')"
  shows "sock_inv fds s'"
proof -
  have prep: "triple (sock_inv fds) (prepare_sockets w a) (\<lambda>socks. sock_inv fds) (\<lambda>e. sock_inv fds)"
    by (rule prepare_sockets_inv) (simp_all add: sock_inv_opened, simp add: sock_inv_def)
  have spawn: "sock_inv fds s2"
    if "prepare_sockets w a (boot fds env) = (Inr socks, s1)" "run_spawn w a socks s1 = (u, s2)"
    for socks s1 u s2
  proof -
    note b = prepare_sockets_boot [OF that(1)]
    note p = run_spawn_postD [OF that(2) b(1-3)]
    have i1: "sock_inv fds s1" using prep sock_inv_boot that(1) by (rule tripleD_Inr)
    have nf: "lowest_free (open_fds s1) \<notin> set (exitstack s1)"
      "lowest_free (open_fds s1) \<notin> set fds"
      using lowest_free_notin [of "open_fds s1"] i1 by (simp_all add: sock_inv_def)
    from p(8) show ?thesis
    proof
      assume "open_fds s2 = open_fds s1 \<and> exitstack s2 = exitstack s1 \<and>
        created (trace s2) = created (trace s1)"
      with i1 p(9) show ?thesis by (simp add: sock_inv_def)
    next
      assume "open_fds s2 = lowest_free (open_fds s1) # open_fds s1 \<and>
        exitstack s2 = lowest_free (open_fds s1) # exitstack s1 \<and>
        created (trace s2) = created (trace s1) @ [lowest_free (open_fds s1)]"
      with i1 nf p(9) show ?thesis unfolding sock_inv_def by simp
    qed
  qed
  from assms show ?thesis
  proof (cases rule: run_cases)
    case (prepare_failed e)
    from prep sock_inv_boot prepare_failed(1) show ?thesis by (rule tripleD_Inl)
  next
    case (spawn_failed socks s1 e s2)
    have "s' = s2\<lparr>res := res s2, trace := trace s2 @ kill_cascade s2\<rparr>"
      using spawn_failed(3) by simp
    with spawn [OF spawn_failed(1,2)] show ?thesis
      using cascades_are_cascade_events(3) by (rule sock_inv_frame)
  next
    case (waited socks s1 s2 x)
    note b = prepare_sockets_boot [OF waited(1)]
    note wn = well_named_spawned [OF waited(2) b(1-3)]
    note q = run_wait_postD(1,2) [OF wn waited(3)]
    from q(2) obtain evs where e: "trace s' = trace s2 @ evs" "list_all (is_cascade_event s2) evs"
      by blast
    have "s' = s2\<lparr>res := res s', trace := trace s2 @ evs\<rparr>" using q(1) e(1) by simp
    with spawn [OF waited(1,2)] show ?thesis using e(2) by (rule sock_inv_frame)
  next
    case (interrupted socks s1 s2 s3 r4)
    note b = prepare_sockets_boot [OF interrupted(1)]
    note wn = well_named_spawned [OF interrupted(2) b(1-3)]
    note q = run_wait_postD(1,2) [OF wn interrupted(3)]
    have wn3: "well_named s3" using wn unfolding same_procs [OF q(1)] .
    note h = on_keyboard_interrupt_postD(1,2) [OF wn3 interrupted(4)]
    from q(2) obtain evs where e: "trace s3 = trace s2 @ evs" "list_all (is_cascade_event s2) evs"
      by blast
    from h(2) obtain evs' where e': "trace s' = trace s3 @ evs'" "list_all (is_cascade_event s3) evs'"
      by blast
    have "s3 = s2\<lparr>res := res s3, trace := trace s2 @ evs\<rparr>" using q(1) e(1) by simp
    with spawn [OF interrupted(1,2)] have "sock_inv fds s3" using e(2) by (rule sock_inv_frame)
    moreover have "s' = s3\<lparr>res := res s', trace := trace s3 @ evs'\<rparr>" using h(1) e'(1) by simp
    ultimately show ?thesis using e'(2) by (rule sock_inv_frame)
  next
    case (start_interrupted socks s1 s2 r4)
    note b = prepare_sockets_boot [OF start_interrupted(1)]
    note wn = well_named_spawned [OF start_interrupted(2) b(1-3)]
    note h = on_keyboard_interrupt_postD(1,2) [OF wn start_interrupted(3)]
    from h(2) obtain evs where e: "trace s' = trace s2 @ evs" "list_all (is_cascade_event s2) evs"
      by blast
    have "s' = s2\<lparr>res := res s', trace := trace s2 @ evs\<rparr>" using h(1) e(1) by simp
    with spawn [OF start_interrupted(1,2)] show ?thesis using e(2) by (rule sock_inv_frame)
  qed
qed

lemma trace_fold_sock_close: "trace (fold sock_close xs s) = trace s @ map EvClose xs"
proof (induction xs arbitrary: s)
  case Nil
  show ?case by simp
next
  case (Cons x xs)
  have "trace (sock_close x s) = trace s @ [EvClose x]" by (simp add: sock_close_def log_def)
  with Cons.IH [of "sock_close x s"] show ?case by simp
qed

lemma open_fds_fold_sock_close:
  "open_fds (fold sock_close xs s) = filter (\<lambda>fd. fd \<notin> set xs) (open_fds s)"
proof (induction xs arbitrary: s)
  case Nil
  show ?case by simp
next
  case (Cons x xs)
  have "filter (\<lambda>fd. fd \<notin> set xs) (removeAll x ys) =
      filter (\<lambda>fd. fd \<notin> set (x # xs)) ys" for ys
    by (induction ys) auto
  moreover have "open_fds (sock_close x s) = removeAll x (open_fds s)"
    by (simp add: sock_close_def log_def)
  moreover have "open_fds (fold sock_close (x # xs) s) =
      filter (\<lambda>fd. fd \<notin> set xs) (open_fds (sock_close x s))"
    using Cons.IH [of "sock_close x s"] by simp
  ultimately show ?case by simp
qed

lemma Cli_enter_boot: "Cli_enter (boot fds env) = boot fds env"
  by (simp add: Cli_enter_def boot_def)

lemma main_boot:
  "main w a (boot fds env) =
     (fst (run w a (boot fds env)), Cli_exit (snd (run w a (boot fds env))))"
  by (simp add: main_def Cli_enter_boot split: prod.split)

lemma created_map_EvClose: "created (map EvClose xs) = []" "closed (map EvClose xs) = xs"
  by (induction xs) simp_all

section \<open>The order of starting and ending\<close>

lemma list_ex_proc_events:
  assumes "\<And>e. \<not> is_proc_event e \<Longrightarrow> \<not> Q e"
  shows "list_ex Q (proc_events tr) = list_ex Q tr"
  using assms by (induction tr) (auto simp: proc_events_def)

lemma list_ex_takeWhile_proc_events:
  assumes "\<And>e. \<not> is_proc_event e \<Longrightarrow> \<not> P e \<and> \<not> Q e"
  shows "list_ex Q (takeWhile (\<lambda>e. \<not> P e) (proc_events tr)) =
         list_ex Q (takeWhile (\<lambda>e. \<not> P e) tr)"
  using assms by (induction tr) (auto simp: proc_events_def)

lemma list_ex_dropWhile_proc_events:
  assumes "\<And>e. \<not> is_proc_event e \<Longrightarrow> \<not> P e \<and> \<not> Q e"
  shows "list_ex Q (dropWhile (\<lambda>e. \<not> P e) (proc_events tr)) =
         list_ex Q (dropWhile (\<lambda>e. \<not> P e) tr)"
proof (induction tr)
  case Nil
  show ?case by (simp add: proc_events_def)
next
  case (Cons e tr)
  have q: "list_ex Q (proc_events tr) = list_ex Q tr"
    using assms by (intro list_ex_proc_events) simp
  show ?case
  proof (cases "P e")
    case True
    with assms [of e] have "is_proc_event e" by blast
    with True q show ?thesis by (simp add: proc_events_def)
  next
    case False
    with Cons.IH show ?thesis by (simp add: proc_events_def)
  qed
qed

lemma order_proc_events:
  "helpers_spawned_first (proc_events tr) = helpers_spawned_first tr"
  "helpers_ended_after_primary (proc_events tr) = helpers_ended_after_primary tr"
  "helpers_ended_before_primary (proc_events tr) = helpers_ended_before_primary tr"
  unfolding helpers_spawned_first_def helpers_ended_after_primary_def
    helpers_ended_before_primary_def
  by (subst list_ex_takeWhile_proc_events list_ex_dropWhile_proc_events;
      auto simp: is_proc_event_def helper_spawn_def helper_end_def helper_cascade_def
        primary_end_def split: event.splits)+

lemma no_spawn_after:
  assumes "list_all (is_cascade_event s) evs"
  shows "helpers_spawned_first (spawn_events s @ evs)"
proof -
  have n: "\<not> list_ex helper_spawn (dropWhile P evs)" for P
  proof
    assume "list_ex helper_spawn (dropWhile P evs)"
    then obtain e where "e \<in> set (dropWhile P evs)" "helper_spawn e" by (auto simp: list_ex_iff)
    then have "e \<in> set evs" "helper_spawn e" by (auto dest: set_dropWhileD)
    with not_spawn_cascade [OF assms] show False by (auto simp: helper_spawn_def)
  qed
  show ?thesis
  proof (cases "proc_composer s")
    case None
    then have "dropWhile (\<lambda>e. \<not> e = EvSpawn Composer) (spawn_events s @ evs) =
        dropWhile (\<lambda>e. \<not> e = EvSpawn Composer) evs"
      by (intro dropWhile_append2) (auto simp: spawn_events_def split: if_splits)
    with n show ?thesis by (simp add: helpers_spawned_first_def)
  next
    case (Some c)
    then have "dropWhile (\<lambda>e. \<not> e = EvSpawn Composer) (spawn_events s @ evs) =
        EvSpawn Composer # evs"
      by (simp add: spawn_events_def)
    moreover have "\<not> list_ex helper_spawn evs" using n [of "\<lambda>e. False"] by simp
    ultimately show ?thesis by (simp add: helpers_spawned_first_def helper_spawn_def)
  qed
qed

section \<open>Concrete runs\<close>

lemma pair_fst: "fst p = x \<Longrightarrow> p = (x, snd p)"
  by (cases p) simp

lemmas run_defs = run_spawn_def run_wait_def on_keyboard_interrupt_def on_exception_def
  try_except_def raiseE_def whenE_def spawn_eqs wait_defs opened_def primary_enabled_def any_def
  lowest_free_def worker_child_def dnf_json_child_def composer_child_def

lemmas prepare_defs = prepare_sockets_def blocks prims port_ok_def lowest_free_def str.simps
  digit_def

lemma prepare_sockets_args_full:
  "prepare_sockets calm args_full (boot [0, 1, 2] Map.empty) =
     (Inr [3, 4],
      (boot [0, 1, 2] Map.empty)\<lparr>open_fds := [4, 3, 0, 1, 2], exitstack := [4, 3],
         trace := [EvSocket 3, EvSocket 4],
         environ := [''LISTEN_FDS'' \<mapsto> ''2'',
           ''LISTEN_FDNAMES'' \<mapsto> ''osbuild-composer-api.socket:osbuild-local-worker.socket'']\<rparr>)"
  by (simp add: prepare_defs calm_def boot_def args_full_def)

lemma run_calm_full:
  "fst (run calm args_full (boot [0, 1, 2] Map.empty)) = Inr 3"
  "trace (snd (run calm args_full (boot [0, 1, 2] Map.empty))) =
     [EvSocket 3, EvSocket 4, EvSpawn Worker, EvSocket 5, EvSpawn DnfJson, EvSpawn Composer,
      EvWait Composer, EvTerminate Worker, EvWait Worker, EvTerminate DnfJson, EvWait DnfJson]"
  unfolding run_boot bindE_def prepare_sockets_args_full
  by (simp_all add: run_defs calm_def args_full_def boot_def)

lemma prepare_sockets_interrupting:
  "prepare_sockets interrupting args_full (boot [0, 1, 2] Map.empty) =
     (Inr [3, 4],
      (boot [0, 1, 2] Map.empty)\<lparr>open_fds := [4, 3, 0, 1, 2], exitstack := [4, 3],
         trace := [EvSocket 3, EvSocket 4],
         environ := [''LISTEN_FDS'' \<mapsto> ''2'',
           ''LISTEN_FDNAMES'' \<mapsto> ''osbuild-composer-api.socket:osbuild-local-worker.socket'']\<rparr>)"
  by (simp add: prepare_defs interrupting_def calm_def boot_def args_full_def)

lemma run_interrupting_full:
  "fst (run interrupting args_full (boot [0, 1, 2] Map.empty)) = Inr 3"
  "trace (snd (run interrupting args_full (boot [0, 1, 2] Map.empty))) =
     [EvSocket 3, EvSocket 4, EvSpawn Worker, EvSocket 5, EvSpawn DnfJson, EvSpawn Composer,
      EvTerminate Worker, EvWait Worker, EvTerminate DnfJson, EvWait DnfJson,
      EvTerminate Composer, EvWait Composer]"
  unfolding run_boot bindE_def prepare_sockets_interrupting
  by (simp_all add: run_defs interrupting_def calm_def args_full_def boot_def)

lemma prepare_sockets_primary_missing:
  "prepare_sockets primary_missing args_full (boot [0, 1, 2] Map.empty) =
     (Inr [3, 4],
      (boot [0, 1, 2] Map.empty)\<lparr>open_fds := [4, 3, 0, 1, 2], exitstack := [4, 3],
         trace := [EvSocket 3, EvSocket 4],
         environ := [''LISTEN_FDS'' \<mapsto> ''2'',
           ''LISTEN_FDNAMES'' \<mapsto> ''osbuild-composer-api.socket:osbuild-local-worker.socket'']\<rparr>)"
  by (simp add: prepare_defs primary_missing_def calm_def boot_def args_full_def)

lemma run_primary_missing_full:
  "fst (run primary_missing args_full (boot [0, 1, 2] Map.empty)) = Inl OSError"
  "trace (snd (run primary_missing args_full (boot [0, 1, 2] Map.empty))) =
     [EvSocket 3, EvSocket 4, EvSpawn Worker, EvSocket 5, EvSpawn DnfJson,
      EvKill Worker, EvKill DnfJson]"
  unfolding run_boot bindE_def prepare_sockets_primary_missing
  by (simp_all add: run_defs primary_missing_def calm_def args_full_def boot_def)

lemma try_primary_missing_full:
  "fst (thenE (run_spawn primary_missing args_full [3, 4]) (run_wait primary_missing)
     (snd (prepare_sockets primary_missing args_full (boot [0, 1, 2] Map.empty)))) = Inl OSError"
  unfolding prepare_sockets_primary_missing
  by (simp add: run_defs primary_missing_def calm_def args_full_def boot_def)


lemma main_listen_failing_full:
  "fst (main listen_failing args_full (boot [0, 1, 2] Map.empty)) = Inl OSError"
  "trace (snd (main listen_failing args_full (boot [0, 1, 2] Map.empty))) =
     [EvSocket 3, EvSocket 4, EvClose 4, EvClose 3]"
  by (simp_all add: main_def Cli_enter_def Cli_exit_def sock_close_def run_def run_init_def
      prepare_defs try_except_def listen_failing_def calm_def args_full_def boot_def)

lemma lowest_free_calm_full: "lowest_free [4, 3, 0, Suc 0, 2] = 5"
  by (simp add: lowest_free_def)

lemmas run_defs'' = run_spawn_def run_wait_def on_keyboard_interrupt_def on_exception_def
  try_except_def raiseE_def whenE_def spawn_eqs wait_defs opened_def primary_enabled_def any_def
  lowest_free_calm_full

lemma run_calm_full_children:
  "proc_worker (snd (run calm args_full (boot [0, 1, 2] Map.empty))) =
     Some (worker_child calm [''LISTEN_FDS'' \<mapsto> ''2'',
       ''LISTEN_FDNAMES'' \<mapsto> ''osbuild-composer-api.socket:osbuild-local-worker.socket''])"
  "proc_dnf_json (snd (run calm args_full (boot [0, 1, 2] Map.empty))) =
     Some (dnf_json_child calm 5 [''LISTEN_FDS'' \<mapsto> ''2'',
       ''LISTEN_FDNAMES'' \<mapsto> ''osbuild-composer-api.socket:osbuild-local-worker.socket''])"
  "proc_composer (snd (run calm args_full (boot [0, 1, 2] Map.empty))) =
     Some (composer_child calm [3, 4] [''LISTEN_FDS'' \<mapsto> ''2'',
       ''LISTEN_FDNAMES'' \<mapsto> ''osbuild-composer-api.socket:osbuild-local-worker.socket''])"
  unfolding run_boot bindE_def prepare_sockets_args_full
  by (simp_all add: run_defs'' calm_def args_full_def boot_def)

lemma children_calm:
  "ch_env (worker_child calm [''LISTEN_FDS'' \<mapsto> ''2'',
       ''LISTEN_FDNAMES'' \<mapsto> ''osbuild-composer-api.socket:osbuild-local-worker.socket''])
     ''LISTEN_FDS'' = Some ''2''"
  "ch_env (dnf_json_child calm 5 [''LISTEN_FDS'' \<mapsto> ''2'',
       ''LISTEN_FDNAMES'' \<mapsto> ''osbuild-composer-api.socket:osbuild-local-worker.socket''])
     ''LISTEN_FDNAMES'' = Some ''osbuild-composer-api.socket:osbuild-local-worker.socket''"
  "ch_env (composer_child calm [3, 4] [''LISTEN_FDS'' \<mapsto> ''2'',
       ''LISTEN_FDNAMES'' \<mapsto> ''osbuild-composer-api.socket:osbuild-local-worker.socket''])
     ''LISTEN_PID'' = Some ''42''"
  "ch_pid (composer_child calm [3, 4] [''LISTEN_FDS'' \<mapsto> ''2'',
       ''LISTEN_FDNAMES'' \<mapsto> ''osbuild-composer-api.socket:osbuild-local-worker.socket'']) = 42"
  "ch_env (composer_child calm [3, 4] [''LISTEN_FDS'' \<mapsto> ''2'',
       ''LISTEN_FDNAMES'' \<mapsto> ''osbuild-composer-api.socket:osbuild-local-worker.socket''])
     ''LISTEN_FDNAMES'' = Some ''osbuild-composer-api.socket:osbuild-local-worker.socket''"
  by (simp_all add: worker_child_def dnf_json_child_def composer_child_def calm_def str.simps
      digit_def)

lemma spawn_composer_calm:
  "spawn_composer calm [3, 4] (boot [0, 1, 2] Map.empty) =
     (Inr (composer_child calm [3, 4] Map.empty),
      log (EvSpawn Composer) ((boot [0, 1, 2] Map.empty)\<lparr>environ :=
        [''CACHE_DIRECTORY'' \<mapsto> ''/var/cache/osbuild-composer'',
         ''STATE_DIRECTORY'' \<mapsto> ''/var/lib/osbuild-composer'']\<rparr>))"
  unfolding spawn_composer_eq Let_def by (simp add: calm_def boot_def)

lemma prepare_sockets_listen_failing:
  "fst (prepare_sockets listen_failing args_full (boot [0, 1, 2] Map.empty)) = Inl OSError"
  by (simp add: prepare_defs listen_failing_def calm_def args_full_def boot_def)

text \<open>
  The assertions guard the descriptor table: started with descriptor 3 already open, the
  first socket gets descriptor 4 and the preparation stops at its assertion.
\<close>

lemma prepare_sockets_descriptor_taken:
  "fst (prepare_sockets calm args_full (boot [0, 1, 2, 3] Map.empty)) = Inl AssertionError"
  by (simp add: prepare_defs calm_def args_full_def boot_def)

text \<open>The runs with everything enabled that the command line can enable.\<close>

lemma prepare_sockets_all:
  "prepare_sockets calm args_all (boot [0, 1, 2] Map.empty) =
     (Inr [3, 4, 5, 6],
      (boot [0, 1, 2] Map.empty)\<lparr>open_fds := [6, 5, 4, 3, 0, 1, 2], exitstack := [6, 5, 4, 3],
         trace := [EvSocket 3, EvSocket 4, EvSocket 5, EvSocket 6],
         environ := [''LISTEN_FDS'' \<mapsto> ''4'',
           ''LISTEN_FDNAMES'' \<mapsto> ''osbuild-composer.socket:osbuild-composer-api.socket:osbuild-local-worker.socket:osbuild-remote-worker.socket'']\<rparr>)"
  "prepare_sockets interrupting args_all (boot [0, 1, 2] Map.empty) =
     (Inr [3, 4, 5, 6],
      (boot [0, 1, 2] Map.empty)\<lparr>open_fds := [6, 5, 4, 3, 0, 1, 2], exitstack := [6, 5, 4, 3],
         trace := [EvSocket 3, EvSocket 4, EvSocket 5, EvSocket 6],
         environ := [''LISTEN_FDS'' \<mapsto> ''4'',
           ''LISTEN_FDNAMES'' \<mapsto> ''osbuild-composer.socket:osbuild-composer-api.socket:osbuild-local-worker.socket:osbuild-remote-worker.socket'']\<rparr>)"
  "prepare_sockets interrupting_helper args_all (boot [0, 1, 2] Map.empty) =
     (Inr [3, 4, 5, 6],
      (boot [0, 1, 2] Map.empty)\<lparr>open_fds := [6, 5, 4, 3, 0, 1, 2], exitstack := [6, 5, 4, 3],
         trace := [EvSocket 3, EvSocket 4, EvSocket 5, EvSocket 6],
         environ := [''LISTEN_FDS'' \<mapsto> ''4'',
           ''LISTEN_FDNAMES'' \<mapsto> ''osbuild-composer.socket:osbuild-composer-api.socket:osbuild-local-worker.socket:osbuild-remote-worker.socket'']\<rparr>)"
  "prepare_sockets interrupting_start args_all (boot [0, 1, 2] Map.empty) =
     (Inr [3, 4, 5, 6],
      (boot [0, 1, 2] Map.empty)\<lparr>open_fds := [6, 5, 4, 3, 0, 1, 2], exitstack := [6, 5, 4, 3],
         trace := [EvSocket 3, EvSocket 4, EvSocket 5, EvSocket 6],
         environ := [''LISTEN_FDS'' \<mapsto> ''4'',
           ''LISTEN_FDNAMES'' \<mapsto> ''osbuild-composer.socket:osbuild-composer-api.socket:osbuild-local-worker.socket:osbuild-remote-worker.socket'']\<rparr>)"
  "prepare_sockets primary_missing args_all (boot [0, 1, 2] Map.empty) =
     (Inr [3, 4, 5, 6],
      (boot [0, 1, 2] Map.empty)\<lparr>open_fds := [6, 5, 4, 3, 0, 1, 2], exitstack := [6, 5, 4, 3],
         trace := [EvSocket 3, EvSocket 4, EvSocket 5, EvSocket 6],
         environ := [''LISTEN_FDS'' \<mapsto> ''4'',
           ''LISTEN_FDNAMES'' \<mapsto> ''osbuild-composer.socket:osbuild-composer-api.socket:osbuild-local-worker.socket:osbuild-remote-worker.socket'']\<rparr>)"
  by (simp_all add: prepare_defs calm_def interrupting_def interrupting_helper_def
      interrupting_start_def primary_missing_def boot_def args_all_def)

lemma lowest_free_args_all: "lowest_free [6, 5, 4, 3, 0, Suc 0, 2] = 7"
  by (simp add: lowest_free_def)

lemma ch_name_children:
  "ch_name (worker_child w env) = Worker" "ch_name (dnf_json_child w fd env) = DnfJson"
  "ch_name (composer_child w socks env) = Composer"
  by (simp_all add: worker_child_def dnf_json_child_def composer_child_def)

lemmas run_defs_all = run_spawn_def run_wait_def on_keyboard_interrupt_def on_exception_def
  try_except_def raiseE_def whenE_def spawn_eqs wait_defs opened_def primary_enabled_def any_def
  lowest_free_args_all ch_name_children

lemma run_calm_all:
  "fst (run calm args_all (boot [0, 1, 2] Map.empty)) = Inr 3"
  "trace (snd (run calm args_all (boot [0, 1, 2] Map.empty))) =
     [EvSocket 3, EvSocket 4, EvSocket 5, EvSocket 6, EvSocket 7, EvSpawn DnfJson,
      EvSpawn Composer, EvWait Composer, EvTerminate DnfJson, EvWait DnfJson]"
  "proc_composer (snd (run calm args_all (boot [0, 1, 2] Map.empty))) =
     Some (composer_child calm [3, 4, 5, 6] [''LISTEN_FDS'' \<mapsto> ''4'',
       ''LISTEN_FDNAMES'' \<mapsto> ''osbuild-composer.socket:osbuild-composer-api.socket:osbuild-local-worker.socket:osbuild-remote-worker.socket''])"
  unfolding run_boot bindE_def prepare_sockets_all
  by (simp_all add: run_defs_all calm_def args_all_def boot_def)

lemma run_interrupting_all:
  "fst (run interrupting args_all (boot [0, 1, 2] Map.empty)) = Inr 3"
  "trace (snd (run interrupting args_all (boot [0, 1, 2] Map.empty))) =
     [EvSocket 3, EvSocket 4, EvSocket 5, EvSocket 6, EvSocket 7, EvSpawn DnfJson,
      EvSpawn Composer, EvTerminate DnfJson, EvWait DnfJson, EvTerminate Composer,
      EvWait Composer]"
  unfolding run_boot bindE_def prepare_sockets_all
  by (simp_all add: run_defs_all interrupting_def calm_def args_all_def boot_def)


lemma run_interrupting_start_all:
  "fst (run interrupting_start args_all (boot [0, 1, 2] Map.empty)) = Inr 0"
  "trace (snd (run interrupting_start args_all (boot [0, 1, 2] Map.empty))) =
     [EvSocket 3, EvSocket 4, EvSocket 5, EvSocket 6, EvSocket 7]"
  unfolding run_boot bindE_def prepare_sockets_all
  by (simp_all add: run_defs_all interrupting_start_def calm_def args_all_def boot_def)

lemma run_primary_missing_all:
  "fst (run primary_missing args_all (boot [0, 1, 2] Map.empty)) = Inl OSError"
  "trace (snd (run primary_missing args_all (boot [0, 1, 2] Map.empty))) =
     [EvSocket 3, EvSocket 4, EvSocket 5, EvSocket 6, EvSocket 7, EvSpawn DnfJson,
      EvKill DnfJson]"
  unfolding run_boot bindE_def prepare_sockets_all
  by (simp_all add: run_defs_all primary_missing_def calm_def args_all_def boot_def)

lemma names_args_all:
  "join '':'' (enabled_socket_names args_all) =
     ''osbuild-composer.socket:osbuild-composer-api.socket:osbuild-local-worker.socket:osbuild-remote-worker.socket''"
  "str (length (enabled_socket_names args_all)) = ''4''"
  "[3 ..< 3 + length (enabled_socket_names args_all)] = [3, 4, 5, 6]"
  "planned_spawns args_all = [EvSpawn DnfJson, EvSpawn Composer]"
  "primary_enabled args_all" "ports_ok args_all"
  "any [weldr_api args_all, composer_api args_all, local_worker_api args_all,
        remote_worker_api args_all]"
  "normal_shutdown args_all = [EvWait Composer, EvTerminate DnfJson, EvWait DnfJson]"
  "interrupt_shutdown args_all =
     [EvTerminate DnfJson, EvWait DnfJson, EvTerminate Composer, EvWait Composer]"
  by (simp_all add: enabled_socket_names_def args_all_def str.simps digit_def upt_rec
      planned_spawns_def primary_enabled_def any_def ports_ok_def normal_shutdown_def
      interrupt_shutdown_def)

lemma prepare_sockets_interrupting_worker:
  "prepare_sockets (calm\<lparr>interrupt := (\<lambda>l. l = 319)\<rparr>) args_full (boot [0, 1, 2] Map.empty) =
     (Inr [3, 4],
      (boot [0, 1, 2] Map.empty)\<lparr>open_fds := [4, 3, 0, 1, 2], exitstack := [4, 3],
         trace := [EvSocket 3, EvSocket 4],
         environ := [''LISTEN_FDS'' \<mapsto> ''2'',
           ''LISTEN_FDNAMES'' \<mapsto> ''osbuild-composer-api.socket:osbuild-local-worker.socket'']\<rparr>)"
  by (simp add: prepare_defs calm_def boot_def args_full_def)

text \<open>
  The wait for the worker is interrupted after the primary server has exited: the worker,
  sent its termination request at line 318, is sent another one at line 329.
\<close>

lemma run_interrupting_worker_full:
  "fst (run (calm\<lparr>interrupt := (\<lambda>l. l = 319)\<rparr>) args_full (boot [0, 1, 2] Map.empty)) = Inr 3"
  "trace (snd (run (calm\<lparr>interrupt := (\<lambda>l. l = 319)\<rparr>) args_full (boot [0, 1, 2] Map.empty))) =
     [EvSocket 3, EvSocket 4, EvSpawn Worker, EvSocket 5, EvSpawn DnfJson, EvSpawn Composer,
      EvWait Composer, EvTerminate Worker, EvTerminate Worker, EvWait Worker,
      EvTerminate DnfJson, EvWait DnfJson, EvTerminate Composer, EvWait Composer]"
  unfolding run_boot bindE_def prepare_sockets_interrupting_worker
  by (simp_all add: run_defs calm_def args_full_def boot_def)

section \<open>Properties of the socket preparation\<close>

text \<open>
  Claim C1. Whatever subset of the weldr API, composer API, local worker API and remote
  worker API is enabled: when \<open>_prepare_sockets\<close> returns, \<open>LISTEN_FDNAMES\<close> is the
  colon-joined list of the names of the enabled sockets in the fixed creation order,
  \<open>LISTEN_FDS\<close> is the decimal number of those sockets, and that many sockets are
  returned. A primary server that \<open>run\<close> starts has these two values in its environment
  and is passed that many descriptors. And \<open>_prepare_sockets\<close> does return, with these
  values set, for every subset, when no call fails, the ports can be bound to and the
  supervisor starts with the three standard streams open and nothing else; when moreover no
  interrupt arrives and a feature is enabled, \<open>run\<close> starts the primary server.
\<close>

theorem listen_env_lists_enabled_sockets:
  "(prepare_sockets w a s = (Inr socks, s') \<longrightarrow>
      environ s' ''LISTEN_FDNAMES'' = Some (join '':'' (enabled_socket_names a)) \<and>
      environ s' ''LISTEN_FDS'' = Some (str (length (enabled_socket_names a))) \<and>
      length socks = length (enabled_socket_names a)) \<and>
   (run w a (boot fds env) = (r, s2) \<and> proc_composer s2 = Some c \<longrightarrow>
      ch_env c ''LISTEN_FDNAMES'' = Some (join '':'' (enabled_socket_names a)) \<and>
      ch_env c ''LISTEN_FDS'' = Some (str (length (enabled_socket_names a))) \<and>
      length (ch_pass_fds c) = length (enabled_socket_names a)) \<and>
   ((\<forall>l. \<not> fault w l) \<and> ports_ok a \<and> set (open_fds s) = {0, 1, 2} \<longrightarrow>
      fst (prepare_sockets w a s) = Inr [3 ..< 3 + length (enabled_socket_names a)] \<and>
      environ (snd (prepare_sockets w a s)) ''LISTEN_FDNAMES'' =
        Some (join '':'' (enabled_socket_names a)) \<and>
      environ (snd (prepare_sockets w a s)) ''LISTEN_FDS'' =
        Some (str (length (enabled_socket_names a)))) \<and>
   ((\<forall>l. \<not> fault w l) \<and> (\<forall>l. \<not> interrupt w l) \<and> ports_ok a \<and> set fds = {0, 1, 2} \<and>
    any [weldr_api a, composer_api a, local_worker_api a, remote_worker_api a] \<longrightarrow>
      (\<exists>c. proc_composer (snd (run w a (boot fds env))) = Some c))"
proof (intro conjI impI)
  assume ok: "prepare_sockets w a s = (Inr socks, s')"
  from prepare_sockets_ok [OF ok]
  show "environ s' ''LISTEN_FDNAMES'' = Some (join '':'' (enabled_socket_names a))"
    "environ s' ''LISTEN_FDS'' = Some (str (length (enabled_socket_names a)))"
    "length socks = length (enabled_socket_names a)"
    by simp_all
next
  assume "run w a (boot fds env) = (r, s2) \<and> proc_composer s2 = Some c"
  then have run: "run w a (boot fds env) = (r, s2)" and c: "proc_composer s2 = Some c" by simp_all
  from run_children(3) [OF run] c
  have c': "c = composer_child w [3 ..< 3 + length (enabled_socket_names a)]
      (env(''LISTEN_FDS'' \<mapsto> str (length (enabled_socket_names a)),
           ''LISTEN_FDNAMES'' \<mapsto> join '':'' (enabled_socket_names a)))"
    by simp
  show "ch_env c ''LISTEN_FDNAMES'' = Some (join '':'' (enabled_socket_names a))"
    "ch_env c ''LISTEN_FDS'' = Some (str (length (enabled_socket_names a)))"
    "length (ch_pass_fds c) = length (enabled_socket_names a)"
    by (simp_all add: c' composer_child_def)
next
  assume h: "(\<forall>l. \<not> fault w l) \<and> ports_ok a \<and> set (open_fds s) = {0, 1, 2}"
  then have ret: "fst (prepare_sockets w a s) = Inr [3 ..< 3 + length (enabled_socket_names a)]"
    by (intro prepare_sockets_returns) (simp_all add: ports_ok_def)
  then show "fst (prepare_sockets w a s) = Inr [3 ..< 3 + length (enabled_socket_names a)]" .
  from prepare_sockets_ok(2) [OF pair_fst [OF ret]]
  show "environ (snd (prepare_sockets w a s)) ''LISTEN_FDNAMES'' =
        Some (join '':'' (enabled_socket_names a))"
    "environ (snd (prepare_sockets w a s)) ''LISTEN_FDS'' =
        Some (str (length (enabled_socket_names a)))"
    by simp_all
next
  assume h: "(\<forall>l. \<not> fault w l) \<and> (\<forall>l. \<not> interrupt w l) \<and> ports_ok a \<and> set fds = {0, 1, 2} \<and>
    any [weldr_api a, composer_api a, local_worker_api a, remote_worker_api a]"
  obtain r' s3 where run: "run w a (boot fds env) = (r', s3)" by fastforce
  from h have "spawn_events s3 = planned_spawns a"
    by (intro run_returns(2) [OF _ _ _ _ run]) simp_all
  from spawn_events_planned(3) [OF this] h have "proc_composer s3 \<noteq> None"
    by (simp add: primary_enabled_def)
  then show "\<exists>c. proc_composer (snd (run w a (boot fds env))) = Some c" by (simp add: run)
qed

theorem listen_env_lists_enabled_sockets_witness:
  "fst (prepare_sockets calm args_all (boot [0, 1, 2] Map.empty)) = Inr [3, 4, 5, 6] \<and>
   environ (snd (prepare_sockets calm args_all (boot [0, 1, 2] Map.empty))) ''LISTEN_FDNAMES'' =
     Some ''osbuild-composer.socket:osbuild-composer-api.socket:osbuild-local-worker.socket:osbuild-remote-worker.socket'' \<and>
   environ (snd (prepare_sockets calm args_all (boot [0, 1, 2] Map.empty))) ''LISTEN_FDS'' =
     Some ''4'' \<and>
   proc_composer (snd (run calm args_all (boot [0, 1, 2] Map.empty))) =
     Some (composer_child calm [3, 4, 5, 6] [''LISTEN_FDS'' \<mapsto> ''4'',
       ''LISTEN_FDNAMES'' \<mapsto> ''osbuild-composer.socket:osbuild-composer-api.socket:osbuild-local-worker.socket:osbuild-remote-worker.socket'']) \<and>
   ch_env (composer_child calm [3, 4, 5, 6] [''LISTEN_FDS'' \<mapsto> ''4'',
       ''LISTEN_FDNAMES'' \<mapsto> ''osbuild-composer.socket:osbuild-composer-api.socket:osbuild-local-worker.socket:osbuild-remote-worker.socket''])
     ''LISTEN_FDNAMES'' =
     Some ''osbuild-composer.socket:osbuild-composer-api.socket:osbuild-local-worker.socket:osbuild-remote-worker.socket'' \<and>
   ch_env (composer_child calm [3, 4, 5, 6] [''LISTEN_FDS'' \<mapsto> ''4'',
       ''LISTEN_FDNAMES'' \<mapsto> ''osbuild-composer.socket:osbuild-composer-api.socket:osbuild-local-worker.socket:osbuild-remote-worker.socket''])
     ''LISTEN_FDS'' = Some ''4''"
proof -
  have q: "\<forall>l. \<not> fault calm l" "\<forall>l. \<not> interrupt calm l"
    "set (open_fds (boot [0, 1, 2] Map.empty)) = {0, 1, 2}" "set [0 :: nat, 1, 2] = {0, 1, 2}"
    by (simp_all add: calm_def boot_def)
  from listen_env_lists_enabled_sockets [of calm args_all "boot [0, 1, 2] Map.empty" "[3, 4, 5, 6]"
      "snd (prepare_sockets calm args_all (boot [0, 1, 2] Map.empty))"
      "[0, 1, 2]" Map.empty "Inr 3" "snd (run calm args_all (boot [0, 1, 2] Map.empty))"
      "composer_child calm [3, 4, 5, 6] [''LISTEN_FDS'' \<mapsto> ''4'',
       ''LISTEN_FDNAMES'' \<mapsto> ''osbuild-composer.socket:osbuild-composer-api.socket:osbuild-local-worker.socket:osbuild-remote-worker.socket'']"]
    q names_args_all(1,2,3,6,7) pair_fst [OF run_calm_all(1)] run_calm_all(3)
  show ?thesis by simp
qed


text \<open>
  Claim C2. Whatever subset of the features is enabled: the sockets that
  \<open>_prepare_sockets\<close> returns have the descriptors 3, 4, ... in creation order, one for
  each enabled socket and none for a disabled one. When the supervisor starts with the three
  standard streams 0, 1 and 2 open and nothing else, none of the assertions
  \<open>sock.fileno() == index\<close> fails, whichever calls fail.
\<close>

theorem activation_descriptors_contiguous:
  "(prepare_sockets w a s = (Inr socks, s') \<longrightarrow>
      map fileno socks = [3 ..< 3 + length socks] \<and>
      length socks = length (enabled_socket_names a)) \<and>
   (set (open_fds s) = {0, 1, 2} \<longrightarrow> fst (prepare_sockets w a s) \<noteq> Inl AssertionError)"
proof (intro conjI impI)
  assume ok: "prepare_sockets w a s = (Inr socks, s')"
  from prepare_sockets_ok(1) [OF ok] show "length socks = length (enabled_socket_names a)"
    by simp
  with prepare_sockets_ok(1) [OF ok] have "socks = [3 ..< 3 + length socks]" by simp
  moreover have "map fileno socks = socks" by (simp add: fileno_def [abs_def])
  ultimately show "map fileno socks = [3 ..< 3 + length socks]" by simp
next
  assume fds: "set (open_fds s) = {0, 1, 2}"
  show "fst (prepare_sockets w a s) \<noteq> Inl AssertionError"
  proof
    assume "fst (prepare_sockets w a s) = Inl AssertionError"
    then have "prepare_sockets w a s = (Inl AssertionError, snd (prepare_sockets w a s))"
      by (metis prod.collapse)
    from tripleD_Inl [OF prepare_sockets_no_assert fds this] show False by simp
  qed
qed

theorem activation_descriptors_contiguous_witness:
  "fst (prepare_sockets calm args_full (boot [0, 1, 2] Map.empty)) = Inr [3, 4] \<and>
   set (open_fds (boot [0, 1, 2] Map.empty)) = {0, 1, 2} \<and>
   map fileno [3, 4] = [3 ..< 3 + length [3 :: nat, 4]] \<and>
   fst (prepare_sockets calm args_full (boot [0, 1, 2] Map.empty)) \<noteq> Inl AssertionError"
  using activation_descriptors_contiguous [of calm args_full "boot [0, 1, 2] Map.empty" "[3, 4]"
      "snd (prepare_sockets calm args_full (boot [0, 1, 2] Map.empty))"]
  unfolding prepare_sockets_args_full
  by (simp add: boot_def fileno_def enabled_socket_names_def args_full_def)

section \<open>Properties of the launches\<close>

text \<open>
  Claim C3. The primary server is started with \<open>LISTEN_PID\<close> equal to its own process
  identifier. The value is set by the hook that \<open>Popen\<close> runs in the child: it is computed
  from the identifier of the created child and is part of the environment the program is
  executed with, while \<open>LISTEN_PID\<close> in the environment of the supervisor stays as it was.
  A primary server that \<open>run\<close> starts is passed the descriptors of the prepared sockets.
\<close>

theorem listen_pid_is_child_pid:
  "(spawn_composer w socks s = (Inr c, s1) \<longrightarrow>
      ch_env c ''LISTEN_PID'' = Some (str (ch_pid c)) \<and>
      ch_env c = preexec_setenv (ch_pid c) (environ s1) \<and>
      ch_pid c = fork_pid w Composer \<and>
      environ s1 ''LISTEN_PID'' = environ s ''LISTEN_PID'') \<and>
   (run w a (boot fds env) = (r, s') \<and> proc_composer s' = Some c' \<longrightarrow>
      ch_env c' ''LISTEN_PID'' = Some (str (ch_pid c')) \<and>
      ch_pass_fds c' = [3 ..< 3 + length (enabled_socket_names a)] \<and>
      environ s' ''LISTEN_PID'' = env ''LISTEN_PID'')"
proof (intro conjI impI)
  assume sc: "spawn_composer w socks s = (Inr c, s1)"
  then have c: "c = composer_child w socks (environ s)"
    and s1: "s1 = log (EvSpawn Composer)
      (s\<lparr>environ := (environ s)(''CACHE_DIRECTORY'' \<mapsto> ''/var/cache/osbuild-composer'',
                                  ''STATE_DIRECTORY'' \<mapsto> ''/var/lib/osbuild-composer'')\<rparr>)"
    by (simp_all add: spawn_composer_eq Let_def split: if_splits)
  show "ch_env c ''LISTEN_PID'' = Some (str (ch_pid c))" by (simp add: c composer_child_def)
  show "ch_env c = preexec_setenv (ch_pid c) (environ s1)"
    by (simp add: c s1 composer_child_def preexec_setenv_def log_def)
  show "ch_pid c = fork_pid w Composer" by (simp add: c composer_child_def)
  show "environ s1 ''LISTEN_PID'' = environ s ''LISTEN_PID''" by (simp add: s1 log_def)
next
  assume "run w a (boot fds env) = (r, s') \<and> proc_composer s' = Some c'"
  then have run: "run w a (boot fds env) = (r, s')" and c: "proc_composer s' = Some c'" by simp_all
  from run_children(3) [OF run] c
  have c': "c' = composer_child w [3 ..< 3 + length (enabled_socket_names a)]
      (env(''LISTEN_FDS'' \<mapsto> str (length (enabled_socket_names a)),
           ''LISTEN_FDNAMES'' \<mapsto> join '':'' (enabled_socket_names a)))"
    by simp
  show "ch_env c' ''LISTEN_PID'' = Some (str (ch_pid c'))" by (simp add: c' composer_child_def)
  show "ch_pass_fds c' = [3 ..< 3 + length (enabled_socket_names a)]"
    by (simp add: c' composer_child_def)
  show "environ s' ''LISTEN_PID'' = env ''LISTEN_PID''" by (rule run_children(4) [OF run])
qed

theorem listen_pid_is_child_pid_witness:
  "spawn_composer calm [3, 4] (boot [0, 1, 2] Map.empty) =
     (Inr (composer_child calm [3, 4] Map.empty),
      log (EvSpawn Composer) ((boot [0, 1, 2] Map.empty)\<lparr>environ :=
        [''CACHE_DIRECTORY'' \<mapsto> ''/var/cache/osbuild-composer'',
         ''STATE_DIRECTORY'' \<mapsto> ''/var/lib/osbuild-composer'']\<rparr>)) \<and>
   ch_env (composer_child calm [3, 4] Map.empty) ''LISTEN_PID'' =
     Some (str (ch_pid (composer_child calm [3, 4] Map.empty))) \<and>
   run calm args_full (boot [0, 1, 2] Map.empty) =
     (Inr 3, snd (run calm args_full (boot [0, 1, 2] Map.empty))) \<and>
   proc_composer (snd (run calm args_full (boot [0, 1, 2] Map.empty))) =
     Some (composer_child calm [3, 4] [''LISTEN_FDS'' \<mapsto> ''2'',
       ''LISTEN_FDNAMES'' \<mapsto> ''osbuild-composer-api.socket:osbuild-local-worker.socket'']) \<and>
   ch_env (composer_child calm [3, 4] [''LISTEN_FDS'' \<mapsto> ''2'',
       ''LISTEN_FDNAMES'' \<mapsto> ''osbuild-composer-api.socket:osbuild-local-worker.socket''])
     ''LISTEN_PID'' =
     Some (str (ch_pid (composer_child calm [3, 4] [''LISTEN_FDS'' \<mapsto> ''2'',
       ''LISTEN_FDNAMES'' \<mapsto> ''osbuild-composer-api.socket:osbuild-local-worker.socket'']))) \<and>
   ch_env (composer_child calm [3, 4] [''LISTEN_FDS'' \<mapsto> ''2'',
       ''LISTEN_FDNAMES'' \<mapsto> ''osbuild-composer-api.socket:osbuild-local-worker.socket''])
     ''LISTEN_PID'' = Some ''42'' \<and>
   ch_pid (composer_child calm [3, 4] [''LISTEN_FDS'' \<mapsto> ''2'',
       ''LISTEN_FDNAMES'' \<mapsto> ''osbuild-composer-api.socket:osbuild-local-worker.socket'']) = 42"
  using listen_pid_is_child_pid [of calm "[3, 4]" "boot [0, 1, 2] Map.empty"
      "composer_child calm [3, 4] Map.empty"
      "log (EvSpawn Composer) ((boot [0, 1, 2] Map.empty)\<lparr>environ :=
        [''CACHE_DIRECTORY'' \<mapsto> ''/var/cache/osbuild-composer'',
         ''STATE_DIRECTORY'' \<mapsto> ''/var/lib/osbuild-composer'']\<rparr>)"
      args_full "[0, 1, 2]" Map.empty "Inr 3"
      "snd (run calm args_full (boot [0, 1, 2] Map.empty))"
      "composer_child calm [3, 4] [''LISTEN_FDS'' \<mapsto> ''2'',
       ''LISTEN_FDNAMES'' \<mapsto> ''osbuild-composer-api.socket:osbuild-local-worker.socket'']"]
    spawn_composer_calm pair_fst [OF run_calm_full(1)] run_calm_full_children(3)
    children_calm(3,4)
  by blast

text \<open>
  Claim C10. \<open>LISTEN_FDS\<close> and \<open>LISTEN_FDNAMES\<close> are written to \<open>os.environ\<close> by
  \<open>_prepare_sockets\<close>, before any child is started. So a worker that \<open>run\<close> starts has
  both values, describing the sockets of the primary server, in its environment, and is
  passed no descriptor; and \<open>dnf-json\<close> has \<open>LISTEN_FDS\<close> set to 1 but keeps the
  \<open>LISTEN_FDNAMES\<close> of the primary server, and is passed its own socket only, which is
  none of the prepared sockets.
\<close>

theorem helpers_inherit_activation_environment:
  assumes "run w a (boot fds env) = (r, s')"
  shows "(\<forall>c. proc_worker s' = Some c \<longrightarrow>
            ch_env c ''LISTEN_FDS'' = Some (str (length (enabled_socket_names a))) \<and>
            ch_env c ''LISTEN_FDNAMES'' = Some (join '':'' (enabled_socket_names a)) \<and>
            ch_pass_fds c = []) \<and>
         (\<forall>c. proc_dnf_json s' = Some c \<longrightarrow>
            ch_env c ''LISTEN_FDS'' = Some ''1'' \<and>
            ch_env c ''LISTEN_FDNAMES'' = Some (join '':'' (enabled_socket_names a)) \<and>
            (\<exists>fd. ch_pass_fds c = [fd] \<and> ch_env c ''LISTEN_FD'' = Some (str fd) \<and>
               fd \<notin> set [3 ..< 3 + length (enabled_socket_names a)]))"
proof -
  note c = run_children(1,2) [OF assms]
  have "lowest_free (rev [3 ..< 3 + length (enabled_socket_names a)] @ fds) \<notin>
      set (rev [3 ..< 3 + length (enabled_socket_names a)] @ fds)"
    by (rule lowest_free_notin)
  then have "lowest_free (rev [3 ..< 3 + length (enabled_socket_names a)] @ fds) \<notin>
      set [3 ..< 3 + length (enabled_socket_names a)]"
    by simp
  with c show ?thesis by (auto simp: worker_child_def dnf_json_child_def)
qed

theorem helpers_inherit_activation_environment_witness:
  "run calm args_full (boot [0, 1, 2] Map.empty) =
     (Inr 3, snd (run calm args_full (boot [0, 1, 2] Map.empty))) \<and>
   proc_worker (snd (run calm args_full (boot [0, 1, 2] Map.empty))) =
     Some (worker_child calm [''LISTEN_FDS'' \<mapsto> ''2'',
       ''LISTEN_FDNAMES'' \<mapsto> ''osbuild-composer-api.socket:osbuild-local-worker.socket'']) \<and>
   ch_env (worker_child calm [''LISTEN_FDS'' \<mapsto> ''2'',
       ''LISTEN_FDNAMES'' \<mapsto> ''osbuild-composer-api.socket:osbuild-local-worker.socket''])
     ''LISTEN_FDS'' = Some (str (length (enabled_socket_names args_full))) \<and>
   ch_env (worker_child calm [''LISTEN_FDS'' \<mapsto> ''2'',
       ''LISTEN_FDNAMES'' \<mapsto> ''osbuild-composer-api.socket:osbuild-local-worker.socket''])
     ''LISTEN_FDS'' = Some ''2'' \<and>
   proc_dnf_json (snd (run calm args_full (boot [0, 1, 2] Map.empty))) =
     Some (dnf_json_child calm 5 [''LISTEN_FDS'' \<mapsto> ''2'',
       ''LISTEN_FDNAMES'' \<mapsto> ''osbuild-composer-api.socket:osbuild-local-worker.socket'']) \<and>
   ch_env (dnf_json_child calm 5 [''LISTEN_FDS'' \<mapsto> ''2'',
       ''LISTEN_FDNAMES'' \<mapsto> ''osbuild-composer-api.socket:osbuild-local-worker.socket''])
     ''LISTEN_FDS'' = Some ''1'' \<and>
   ch_env (dnf_json_child calm 5 [''LISTEN_FDS'' \<mapsto> ''2'',
       ''LISTEN_FDNAMES'' \<mapsto> ''osbuild-composer-api.socket:osbuild-local-worker.socket''])
     ''LISTEN_FDNAMES'' = Some ''osbuild-composer-api.socket:osbuild-local-worker.socket''"
  using helpers_inherit_activation_environment [OF pair_fst [OF run_calm_full(1)]]
    pair_fst [OF run_calm_full(1)] run_calm_full_children(1,2) children_calm(1,2)
  by blast

section \<open>Properties of the supervision\<close>




text \<open>
  Claim C6. When the sockets are prepared and the \<open>try\<close> block of \<open>run\<close> is left by an
  exception \<open>e\<close> other than \<open>KeyboardInterrupt\<close> (in this model: a child cannot be
  started, or the socket of \<open>dnf-json\<close> cannot be set up), then \<open>run\<close> raises the same
  \<open>e\<close>, every child started before is killed exactly once, and no child is sent a
  termination request or waited for.
\<close>

theorem internal_failure_kills_children:
  assumes "run w a (boot fds env) = (r, s')"
    and "prepare_sockets w a (boot fds env) = (Inr socks, s1)"
    and "thenE (run_spawn w a socks) (run_wait w) s1 = (Inl e, s2)"
    and "e \<noteq> KeyboardInterrupt"
  shows "r = Inl e \<and>
         (\<forall>h. EvSpawn h \<in> set (trace s') \<longrightarrow>
            count_list (trace s') (EvKill h) = 1 \<and>
            EvTerminate h \<notin> set (trace s') \<and> EvWait h \<notin> set (trace s'))"
proof -
  note sp = run_spawned [OF assms(1)]
  have m: "\<And>e. is_proc_event e \<Longrightarrow> e \<in> set (trace s') \<longleftrightarrow> e \<in> set (proc_events (trace s'))"
    by (simp add: mem_proc_events)
  have n: "\<And>e. is_proc_event e \<Longrightarrow> count_list (trace s') e = count_list (proc_events (trace s')) e"
    by (simp add: count_proc_events)
  obtain u s3 where oe: "on_exception s2 = (u, s3)" by fastforce
  with on_exception_returns [of s2] have "u = Inr ()" by simp
  with oe assms(1-4) have r: "r = Inl e"
    by (simp add: run_boot bindE_def try_except_def thenE_def raiseE_def)
  from assms(1) have "\<forall>h. EvSpawn h \<in> set (trace s') \<longrightarrow>
            count_list (trace s') (EvKill h) = 1 \<and>
            EvTerminate h \<notin> set (trace s') \<and> EvWait h \<notin> set (trace s')"
  proof (cases rule: run_exits)
    case (prepare_failed e')
    then show ?thesis by (simp add: sp(2) has_child_def split: proc_name.splits)
  next
    case (spawn_failed e')
    show ?thesis
    proof (intro allI impI)
      fix h assume "EvSpawn h \<in> set (trace s')"
      then have "has_child s' h" by (simp add: sp(2))
      then show "count_list (trace s') (EvKill h) = 1 \<and>
            EvTerminate h \<notin> set (trace s') \<and> EvWait h \<notin> set (trace s')"
        by (cases h) (auto simp: m n spawn_failed(6) has_child_def spawn_events_def kill_cascade_def)
    qed
  next
    case (waited x) with r show ?thesis by simp
  next
    case (interrupted evs3 evs4 r4)
    with r assms(4) show ?thesis by (cases "r4 = Inr ()") simp_all
  next
    case (start_interrupted evs4 r4)
    with r assms(4) show ?thesis by (cases "r4 = Inr ()") simp_all
  qed
  with r show ?thesis by blast
qed

theorem internal_failure_kills_children_witness:
  "run primary_missing args_full (boot [0, 1, 2] Map.empty) =
     (Inl OSError, snd (run primary_missing args_full (boot [0, 1, 2] Map.empty))) \<and>
   fst (prepare_sockets primary_missing args_full (boot [0, 1, 2] Map.empty)) = Inr [3, 4] \<and>
   fst (thenE (run_spawn primary_missing args_full [3, 4]) (run_wait primary_missing)
     (snd (prepare_sockets primary_missing args_full (boot [0, 1, 2] Map.empty)))) = Inl OSError \<and>
   OSError \<noteq> KeyboardInterrupt \<and>
   EvSpawn Worker \<in> set (trace (snd (run primary_missing args_full (boot [0, 1, 2] Map.empty)))) \<and>
   count_list (trace (snd (run primary_missing args_full (boot [0, 1, 2] Map.empty))))
     (EvKill Worker) = 1 \<and>
   EvTerminate Worker \<notin>
     set (trace (snd (run primary_missing args_full (boot [0, 1, 2] Map.empty))))"
proof -
  have p: "prepare_sockets primary_missing args_full (boot [0, 1, 2] Map.empty) =
      (Inr [3, 4], snd (prepare_sockets primary_missing args_full (boot [0, 1, 2] Map.empty)))"
    unfolding prepare_sockets_primary_missing by simp
  have pf: "fst (prepare_sockets primary_missing args_full (boot [0, 1, 2] Map.empty)) =
      Inr [3, 4]"
    unfolding prepare_sockets_primary_missing by simp
  from internal_failure_kills_children [OF pair_fst [OF run_primary_missing_full(1)] p
      pair_fst [OF try_primary_missing_full]]
    pair_fst [OF run_primary_missing_full(1)] pf try_primary_missing_full
  show ?thesis unfolding run_primary_missing_full(2) by simp
qed

text \<open>
  Claim C7, as the code has it. In every run the children started are a prefix of: the
  worker if \<open>builtin_worker\<close>, then \<open>dnf-json\<close> if \<open>dnf_json\<close>, then the primary server
  if one of the weldr API, composer API, local worker API and remote worker API is enabled.
  So a primary server is started only if one of the four features is enabled, and it is
  started last, after every helper that is enabled. It is started if one of them is enabled
  and the start phase is not cut short: when no call fails, the ports can be bound to, the
  supervisor starts with its standard streams only, and no \<open>Popen\<close> is interrupted, all the
  children are started.
\<close>

theorem primary_spawned_last_iff_enabled:
  assumes "run w a (boot fds env) = (r, s')"
  shows "prefix (spawned (trace s')) (planned_spawns a) \<and>
         (EvSpawn Composer \<in> set (trace s') \<longrightarrow>
            any [weldr_api a, composer_api a, local_worker_api a, remote_worker_api a] \<and>
            spawned (trace s') = planned_spawns a) \<and>
         ((\<forall>l. \<not> fault w l) \<and> \<not> interrupt w 226 \<and> \<not> interrupt w 254 \<and> \<not> interrupt w 285 \<and>
          ports_ok a \<and> set fds = {0, 1, 2} \<longrightarrow>
            spawned (trace s') = planned_spawns a \<and>
            (EvSpawn Composer \<in> set (trace s')) =
              any [weldr_api a, composer_api a, local_worker_api a, remote_worker_api a])"
proof -
  note sp = run_spawned [OF assms]
  let ?ok = "(\<forall>l. \<not> fault w l) \<and> \<not> interrupt w 226 \<and> \<not> interrupt w 254 \<and> \<not> interrupt w 285 \<and>
          ports_ok a \<and> set fds = {0, 1, 2}"
  have prep: "fst (prepare_sockets w a (boot fds env)) =
      Inr [3 ..< 3 + length (enabled_socket_names a)]" if ?ok
    using that by (intro prepare_sockets_returns) (simp_all add: ports_ok_def boot_def)
  have start: "fst (run_spawn w a socks s1) = Inr ()" if ?ok for socks s1
    using that by (intro run_spawn_returns) (simp_all add: ports_ok_def)
  from assms show ?thesis
  proof (cases rule: run_exits)
    case (prepare_failed e)
    have "\<not> ?ok" using prep prepare_failed(7) by auto
    moreover have "prefix (spawned (trace s')) (planned_spawns a)"
      using prepare_failed(4-6) by (simp add: sp spawn_events_def)
    moreover have "EvSpawn Composer \<notin> set (trace s')"
      using prepare_failed(6) by (simp add: sp has_child_def)
    ultimately show ?thesis by blast
  next
    case (spawn_failed e socks s1 s2)
    have "\<not> ?ok" using start [of socks s1] spawn_failed(8) by auto
    moreover have "prefix (spawned (trace s')) (planned_spawns a)"
      using spawn_failed(5) by (simp add: sp)
    moreover have "EvSpawn Composer \<notin> set (trace s')"
      using spawn_failed(4) by (simp add: sp has_child_def)
    ultimately show ?thesis by blast
  next
    case (waited x)
    from spawn_events_planned(3) [OF waited(3)] waited(3) show ?thesis
      by (simp add: sp has_child_def primary_enabled_def)
  next
    case (interrupted evs3 evs4 r4)
    from spawn_events_planned(3) [OF interrupted(2)] interrupted(2) show ?thesis
      by (simp add: sp has_child_def primary_enabled_def)
  next
    case (start_interrupted evs4 r4)
    have "\<not> ?ok" using start_interrupted(6) by auto
    moreover have "prefix (spawned (trace s')) (planned_spawns a)"
      using start_interrupted(3) by (simp add: sp)
    moreover have "EvSpawn Composer \<notin> set (trace s')"
      using start_interrupted(2) by (simp add: sp has_child_def)
    ultimately show ?thesis by blast
  qed
qed

theorem primary_spawned_last_iff_enabled_witness:
  "fst (run calm args_all (boot [0, 1, 2] Map.empty)) = Inr 3 \<and>
   prefix (spawned (trace (snd (run calm args_all (boot [0, 1, 2] Map.empty)))))
     [EvSpawn DnfJson, EvSpawn Composer] \<and>
   spawned (trace (snd (run calm args_all (boot [0, 1, 2] Map.empty)))) =
     [EvSpawn DnfJson, EvSpawn Composer] \<and>
   EvSpawn Composer \<in> set (trace (snd (run calm args_all (boot [0, 1, 2] Map.empty)))) \<and>
   any [weldr_api args_all, composer_api args_all, local_worker_api args_all,
        remote_worker_api args_all]"
proof -
  have q: "\<forall>l. \<not> fault calm l" "\<not> interrupt calm 226" "\<not> interrupt calm 254"
    "\<not> interrupt calm 285" "set [0 :: nat, 1, 2] = {0, 1, 2}"
    by (simp_all add: calm_def)
  from primary_spawned_last_iff_enabled [OF pair_fst [OF run_calm_all(1)]]
    q names_args_all(4,6,7) run_calm_all(1)
  show ?thesis by simp
qed

text \<open>
  Claim C7, as stated, fails: with the four socket features and \<open>dnf-json\<close> enabled, the
  \<open>Popen\<close> of \<open>dnf-json\<close> (line 285) is left by \<open>KeyboardInterrupt\<close>. The handler finds
  no child, and \<open>run\<close> returns 0 without the primary server ever started.
\<close>

theorem primary_not_spawned_counterexample:
  "fst (run interrupting_start args_all (boot [0, 1, 2] Map.empty)) = Inr 0 \<and>
   any [weldr_api args_all, composer_api args_all, local_worker_api args_all,
        remote_worker_api args_all] \<and>
   trace (snd (run interrupting_start args_all (boot [0, 1, 2] Map.empty))) =
     [EvSocket 3, EvSocket 4, EvSocket 5, EvSocket 6, EvSocket 7] \<and>
   EvSpawn Composer \<notin> set (trace (snd (run interrupting_start args_all (boot [0, 1, 2] Map.empty))))"
  unfolding run_interrupting_start_all
  by (simp add: any_def args_all_def)



text \<open>
  Claim C4, as the code has it. In every run no helper is started once the primary server is
  started. When \<open>run\<close> returns and no interrupt arrives, the children are ended as lines
  313 to 326 say: the primary server is waited for first, and only then is each helper sent
  its termination request and waited for. When the wait for the primary server is
  interrupted and \<open>run\<close> returns, the order is the other way round, as lines 328 to 336
  say: the worker is sent its termination request and waited for, then \<open>dnf-json\<close>, and the
  primary server is asked to end last. When \<open>run\<close> is left by an exception other than
  \<open>KeyboardInterrupt\<close>, the children that were started are killed in the order of lines 338
  to 343, which is what the bare handler does from every state: the worker, \<open>dnf-json\<close>, and
  the primary server last.
\<close>

theorem helpers_first_and_cascade_order:
  assumes "run w a (boot fds env) = (r, s')"
  shows "helpers_spawned_first (trace s') \<and>
         ((\<exists>x. r = Inr x) \<and> (\<forall>l. \<not> interrupt w l) \<longrightarrow>
            proc_events (trace s') = planned_spawns a @ normal_shutdown a \<and>
            helpers_ended_after_primary (trace s')) \<and>
         ((\<exists>x. r = Inr x) \<and> interrupt w 314 \<and> EvSpawn Composer \<in> set (trace s') \<longrightarrow>
            proc_events (trace s') = planned_spawns a @ interrupt_shutdown a \<and>
            helpers_ended_before_primary (trace s') \<and> EvTerminate Composer \<in> set (trace s')) \<and>
         ((\<exists>e. r = Inl e \<and> e \<noteq> KeyboardInterrupt) \<longrightarrow>
            proc_events (trace s') = spawn_events s' @ kill_cascade s') \<and>
         (well_named s \<longrightarrow> on_exception s = (Inr (), s\<lparr>trace := trace s @ kill_cascade s\<rparr>))"
proof -
  note sp = run_spawned [OF assms]
  have m: "\<And>e. is_proc_event e \<Longrightarrow> e \<in> set (trace s') \<longleftrightarrow> e \<in> set (proc_events (trace s'))"
    by (simp add: mem_proc_events)
  have 5: "well_named s \<longrightarrow> on_exception s = (Inr (), s\<lparr>trace := trace s @ kill_cascade s\<rparr>)"
    by (simp add: on_exception_eq)
  have "helpers_spawned_first (trace s') \<and>
         ((\<exists>x. r = Inr x) \<and> (\<forall>l. \<not> interrupt w l) \<longrightarrow>
            proc_events (trace s') = planned_spawns a @ normal_shutdown a \<and>
            helpers_ended_after_primary (trace s')) \<and>
         ((\<exists>x. r = Inr x) \<and> interrupt w 314 \<and> EvSpawn Composer \<in> set (trace s') \<longrightarrow>
            proc_events (trace s') = planned_spawns a @ interrupt_shutdown a \<and>
            helpers_ended_before_primary (trace s') \<and> EvTerminate Composer \<in> set (trace s')) \<and>
         ((\<exists>e. r = Inl e \<and> e \<noteq> KeyboardInterrupt) \<longrightarrow>
            proc_events (trace s') = spawn_events s' @ kill_cascade s')"
    using assms
  proof (cases rule: run_exits)
    case (prepare_failed e)
    have "helpers_spawned_first (trace s')"
      by (subst order_proc_events(1) [symmetric])
         (simp add: prepare_failed(3) helpers_spawned_first_def)
    with prepare_failed(1-6) show ?thesis by (simp add: spawn_events_def kill_cascade_def)
  next
    case (spawn_failed e)
    have "helpers_spawned_first (trace s')"
      by (subst order_proc_events(1) [symmetric], unfold spawn_failed(6), rule no_spawn_after)
         (rule cascades_are_cascade_events)
    with spawn_failed(1,6) show ?thesis by simp
  next
    case (waited x)
    have "helpers_spawned_first (trace s')"
      by (subst order_proc_events(1) [symmetric], unfold waited(4), rule no_spawn_after)
         (rule cascades_are_cascade_events)
    moreover have "helpers_ended_after_primary (proc_events (trace s'))"
      unfolding waited(4)
      by (cases "proc_worker s'"; cases "proc_dnf_json s'"; cases "proc_composer s'")
         (simp_all add: helpers_ended_after_primary_def spawn_events_def normal_cascade_def
           primary_end_def helper_end_def)
    then have "helpers_ended_after_primary (trace s')" by (simp add: order_proc_events)
    moreover have "proc_events (trace s') = planned_spawns a @ normal_shutdown a"
      using waited(3,4) shutdown_planned(1) [OF waited(3)] by simp
    ultimately show ?thesis using waited(1,6) by (auto simp: sp(2) has_child_def)
  next
    case (interrupted evs3 evs4 r4)
    from interrupted(4,5) have "list_all (is_cascade_event s') (evs3 @ evs4)" by simp
    then have "helpers_spawned_first (spawn_events s' @ evs3 @ evs4)" by (rule no_spawn_after)
    then have 1: "helpers_spawned_first (trace s')"
      by (subst order_proc_events(1) [symmetric]) (simp add: interrupted(3))
    have 2: "proc_events (trace s') = planned_spawns a @ interrupt_shutdown a \<and>
        helpers_ended_before_primary (trace s') \<and> EvTerminate Composer \<in> set (trace s')"
      if "\<exists>x. r = Inr x" "interrupt w 314" "EvSpawn Composer \<in> set (trace s')"
    proof -
      have c: "proc_composer s' \<noteq> None" using that(3) by (simp add: sp(2) has_child_def)
      have r4: "r4 = Inr ()" using interrupted(9) that(1) by (cases "r4 = Inr ()") auto
      have ev: "proc_events (trace s') = spawn_events s' @ interrupt_cascade s'"
        using interrupted(3,7,8) that(2) c r4 by simp
      have "helpers_ended_before_primary (proc_events (trace s'))"
        unfolding ev using c
        by (cases "proc_worker s'"; cases "proc_dnf_json s'"; cases "proc_composer s'")
           (simp_all add: helpers_ended_before_primary_def spawn_events_def interrupt_cascade_def
             primary_end_def helper_end_def helper_cascade_def)
      then have "helpers_ended_before_primary (trace s')" by (simp only: order_proc_events)
      moreover have "EvTerminate Composer \<in> set (trace s')"
        using c by (simp add: m ev interrupt_cascade_def)
      moreover have "proc_events (trace s') = planned_spawns a @ interrupt_shutdown a"
        using ev interrupted(2) shutdown_planned(2) [OF interrupted(2)] by simp
      ultimately show ?thesis by blast
    qed
    have 3: "\<not> ((\<exists>x. r = Inr x) \<and> (\<forall>l. \<not> interrupt w l))"
      using interrupted(6) by blast
    have 4: "\<not> (\<exists>e. r = Inl e \<and> e \<noteq> KeyboardInterrupt)"
      using interrupted(8,9) by (cases "r4 = Inr ()") auto
    from 1 2 3 4 show ?thesis by blast
  next
    case (start_interrupted evs4 r4)
    have "helpers_spawned_first (spawn_events s' @ evs4)"
      using start_interrupted(5) by (rule no_spawn_after)
    then have 1: "helpers_spawned_first (trace s')"
      by (subst order_proc_events(1) [symmetric]) (simp add: start_interrupted(4))
    have 2: "EvSpawn Composer \<notin> set (trace s')"
      using start_interrupted(2) by (simp add: sp(2) has_child_def)
    have 3: "\<not> ((\<exists>x. r = Inr x) \<and> (\<forall>l. \<not> interrupt w l))"
      using start_interrupted(6) by blast
    have 4: "\<not> (\<exists>e. r = Inl e \<and> e \<noteq> KeyboardInterrupt)"
      using start_interrupted(7,8) by (cases "r4 = Inr ()") auto
    from 1 2 3 4 show ?thesis by blast
  qed
  with 5 show ?thesis by blast
qed

theorem helpers_first_and_cascade_order_witness:
  "fst (run calm args_all (boot [0, 1, 2] Map.empty)) = Inr 3 \<and>
   proc_events (trace (snd (run calm args_all (boot [0, 1, 2] Map.empty)))) =
     [EvSpawn DnfJson, EvSpawn Composer, EvWait Composer, EvTerminate DnfJson, EvWait DnfJson] \<and>
   helpers_spawned_first (trace (snd (run calm args_all (boot [0, 1, 2] Map.empty)))) \<and>
   helpers_ended_after_primary (trace (snd (run calm args_all (boot [0, 1, 2] Map.empty)))) \<and>
   fst (run interrupting args_all (boot [0, 1, 2] Map.empty)) = Inr 3 \<and>
   interrupt interrupting 314 \<and>
   proc_events (trace (snd (run interrupting args_all (boot [0, 1, 2] Map.empty)))) =
     [EvSpawn DnfJson, EvSpawn Composer, EvTerminate DnfJson, EvWait DnfJson,
      EvTerminate Composer, EvWait Composer] \<and>
   helpers_ended_before_primary
     (trace (snd (run interrupting args_all (boot [0, 1, 2] Map.empty)))) \<and>
   fst (run primary_missing args_all (boot [0, 1, 2] Map.empty)) = Inl OSError \<and>
   proc_events (trace (snd (run primary_missing args_all (boot [0, 1, 2] Map.empty)))) =
     [EvSpawn DnfJson, EvKill DnfJson] \<and>
   on_exception
     ((boot [0, 1, 2] Map.empty)\<lparr>proc_dnf_json := Some (dnf_json_child calm 7 Map.empty),
        proc_composer := Some (composer_child calm [3, 4, 5, 6] Map.empty)\<rparr>) =
     (Inr (),
      (boot [0, 1, 2] Map.empty)\<lparr>proc_dnf_json := Some (dnf_json_child calm 7 Map.empty),
        proc_composer := Some (composer_child calm [3, 4, 5, 6] Map.empty),
        trace := [EvKill DnfJson, EvKill Composer]\<rparr>)"
proof -
  let ?s = "(boot [0, 1, 2] Map.empty)\<lparr>proc_dnf_json := Some (dnf_json_child calm 7 Map.empty),
        proc_composer := Some (composer_child calm [3, 4, 5, 6] Map.empty)\<rparr>"
  have q: "\<forall>l. \<not> interrupt calm l" "interrupt interrupting 314" "OSError \<noteq> KeyboardInterrupt"
    by (simp_all add: calm_def interrupting_def)
  have c: "EvSpawn Composer \<in>
      set (trace (snd (run interrupting args_all (boot [0, 1, 2] Map.empty))))"
    unfolding run_interrupting_all(2) by simp
  have wn: "well_named ?s" "kill_cascade ?s = [EvKill DnfJson, EvKill Composer]" "trace ?s = []"
    by (simp_all add: well_named_def kill_cascade_def ch_name_children boot_def)
  have k: "spawn_events (snd (run primary_missing args_all (boot [0, 1, 2] Map.empty))) @
      kill_cascade (snd (run primary_missing args_all (boot [0, 1, 2] Map.empty))) =
      [EvSpawn DnfJson, EvKill DnfJson]"
    using helpers_first_and_cascade_order [OF pair_fst [OF run_primary_missing_all(1)], of ?s]
    unfolding run_primary_missing_all(2) by simp
  from helpers_first_and_cascade_order [OF pair_fst [OF run_calm_all(1)], of ?s]
    helpers_first_and_cascade_order [OF pair_fst [OF run_interrupting_all(1)], of ?s]
    helpers_first_and_cascade_order [OF pair_fst [OF run_primary_missing_all(1)], of ?s]
    q c wn k names_args_all(4,8,9) run_calm_all(1) run_interrupting_all(1)
    run_primary_missing_all(1)
  show ?thesis by simp
qed

text \<open>
  Claim C4, as stated, fails on the interrupt: with the four socket features and
  \<open>dnf-json\<close> enabled and the wait for the primary server interrupted (line 314),
  \<open>dnf-json\<close> is sent its termination request and waited for before the primary server has
  ended or is asked to end. And the bare handler, entered from the state where the try block
  stands once the children are started, kills \<open>dnf-json\<close> before the primary server.
\<close>

theorem helpers_ended_after_primary_counterexample:
  "fst (run interrupting args_all (boot [0, 1, 2] Map.empty)) = Inr 3 \<and>
   proc_events (trace (snd (run interrupting args_all (boot [0, 1, 2] Map.empty)))) =
     [EvSpawn DnfJson, EvSpawn Composer, EvTerminate DnfJson, EvWait DnfJson,
      EvTerminate Composer, EvWait Composer] \<and>
   \<not> helpers_ended_after_primary
      (trace (snd (run interrupting args_all (boot [0, 1, 2] Map.empty)))) \<and>
   proc_events (trace (snd (on_exception (snd (run_spawn calm args_all [3, 4, 5, 6]
      (snd (prepare_sockets calm args_all (boot [0, 1, 2] Map.empty)))))))) =
     [EvSpawn DnfJson, EvSpawn Composer, EvKill DnfJson, EvKill Composer] \<and>
   \<not> helpers_ended_after_primary
      (trace (snd (on_exception (snd (run_spawn calm args_all [3, 4, 5, 6]
         (snd (prepare_sockets calm args_all (boot [0, 1, 2] Map.empty))))))))"
  unfolding run_interrupting_all prepare_sockets_all
  by (simp add: helpers_ended_after_primary_def primary_end_def helper_end_def
      run_defs_all calm_def args_all_def boot_def)

section \<open>Properties of the sockets over the whole program\<close>

text \<open>
  Claim C9. In every run of the program, whatever fails: the sockets created are distinct,
  \<open>run\<close> closes none of them, and leaving the \<open>with\<close> block closes each of them exactly
  once, latest first, so that the descriptors open at the end are those open at the start.
  When \<open>_prepare_sockets\<close> fails, the program ends with that error and no child was
  started.
\<close>

theorem sockets_closed_exactly_once:
  "trace (snd (main w a (boot fds env))) =
     trace (snd (run w a (boot fds env))) @
     map EvClose (rev (created (trace (snd (run w a (boot fds env)))))) \<and>
   closed (trace (snd (run w a (boot fds env)))) = [] \<and>
   distinct (created (trace (snd (run w a (boot fds env))))) \<and>
   closed (trace (snd (main w a (boot fds env)))) =
     rev (created (trace (snd (main w a (boot fds env))))) \<and>
   open_fds (snd (main w a (boot fds env))) = fds \<and>
   fst (main w a (boot fds env)) = fst (run w a (boot fds env)) \<and>
   (prepare_sockets w a (boot fds env) = (Inl e, s1) \<longrightarrow>
      fst (main w a (boot fds env)) = Inl e \<and> spawned (trace (snd (main w a (boot fds env)))) = [])"
proof -
  obtain r s' where run: "run w a (boot fds env) = (r, s')" by fastforce
  from run_sock_inv [OF run] have inv: "distinct (exitstack s')" "open_fds s' = exitstack s' @ fds"
    "set (exitstack s') \<inter> set fds = {}" "created (trace s') = rev (exitstack s')"
    "closed (trace s') = []"
    by (simp_all add: sock_inv_def)
  have ex: "exitstack s' = rev (created (trace s'))" using inv(4) by simp
  have tr: "trace (Cli_exit s') = trace s' @ map EvClose (rev (created (trace s')))"
    by (simp add: Cli_exit_def trace_fold_sock_close ex [symmetric])
  have "filter (\<lambda>fd. fd \<notin> set (exitstack s')) (exitstack s' @ fds) = fds"
    using inv(3) by (auto simp: filter_id_conv filter_empty_conv)
  then have fds: "open_fds (Cli_exit s') = fds"
    by (simp add: Cli_exit_def open_fds_fold_sock_close inv(2))
  have d: "distinct (created (trace s'))" using inv(1) by (simp add: inv(4))
  have cl: "closed (trace (Cli_exit s')) = rev (created (trace (Cli_exit s')))"
    unfolding tr by (simp add: inv(5) created_map_EvClose)
  have f: "prepare_sockets w a (boot fds env) = (Inl e, s1) \<longrightarrow>
      r = Inl e \<and> spawned (trace (Cli_exit s')) = []"
  proof
    assume p: "prepare_sockets w a (boot fds env) = (Inl e, s1)"
    then have "run w a (boot fds env) = (Inl e, s1)" by (simp add: run_boot bindE_def)
    with run have r: "r = Inl e" "s' = s1" by simp_all
    from prepare_sockets_boot_failed(4) [OF p] have "spawned (proc_events (trace s')) = []"
      by (simp add: r(2) spawned_def)
    then have "spawned (trace s') = []" by (simp add: spawned_proc_events)
    moreover have "spawned (map EvClose xs) = []" for xs by (induction xs) (simp_all add: spawned_def)
    ultimately show "r = Inl e \<and> spawned (trace (Cli_exit s')) = []"
      unfolding tr by (simp add: r(1) spawned_append)
  qed
  show ?thesis unfolding main_boot run using tr inv(5) d cl fds f by simp
qed

theorem sockets_closed_exactly_once_witness:
  "prepare_sockets listen_failing args_full (boot [0, 1, 2] Map.empty) =
     (Inl OSError, snd (prepare_sockets listen_failing args_full (boot [0, 1, 2] Map.empty))) \<and>
   fst (main listen_failing args_full (boot [0, 1, 2] Map.empty)) = Inl OSError \<and>
   spawned (trace (snd (main listen_failing args_full (boot [0, 1, 2] Map.empty)))) = [] \<and>
   trace (snd (main listen_failing args_full (boot [0, 1, 2] Map.empty))) =
     [EvSocket 3, EvSocket 4, EvClose 4, EvClose 3]"
  using sockets_closed_exactly_once [of listen_failing args_full "[0, 1, 2]" Map.empty OSError
      "snd (prepare_sockets listen_failing args_full (boot [0, 1, 2] Map.empty))"]
    pair_fst [OF prepare_sockets_listen_failing] main_listen_failing_full(2)
  by blast

end
